theory Spec2Isabelle
  imports Complex_Main "HOL-Library.AList" "HOL-Library.List_Lexorder" "HOL-Library.Char_ord"
begin

section \<open>Data model of \<open>motion_vector_extractor.py\<close>\<close>

text \<open>
  Python floats are modelled as exact reals, Python and NumPy integers as \<open>int\<close>.
  Every pixel coordinate is below 600 (a larger frame is resized first), so the
  32-bit arithmetic NumPy performs on line endpoints never wraps.

  An exception raised by an OpenCV primitive, or by a dictionary lookup, is a value
  of type \<open>exn\<close>; a function that can raise returns \<open>exn + 'a\<close>.
\<close>

datatype exn = CvError | KeyError | TypeError

datatype detection_method = Ffmpeg | Flow | Edge

text \<open>
  One detection: the dictionary built by an extractor. The keys \<open>center\<close> to
  \<open>method\<close> are common to the three extractors (the key \<open>method\<close> is the field
  \<open>method'\<close>, its strings the constructors of \<open>detection_method\<close>);
  \<open>evidence\<close> is the value stored under the method's own last key (\<open>area\<close>,
  \<open>flow_magnitude\<close>, \<open>original_length\<close>).
\<close>

record vector =
  center :: "int \<times> int"
  direction :: "real \<times> real"
  magnitude :: real
  angle :: real
  quality :: real
  confidence :: real
  method' :: detection_method
  evidence :: real

text \<open>\<open>self.params\<close>, a dictionary with a fixed key set.\<close>

record params =
  max_vector_length :: real
  optimal_length :: real
  min_vector_length :: real
  ffmpeg_scale :: real
  flow_scale :: real
  edge_scale :: real
  quality_threshold :: real
  confidence_threshold :: real
  max_vectors_per_frame :: int

record extractor =
  use_gpu :: bool
  params :: params

text \<open>
  \<open>MotionVectorExtractor.__init__\<close>: no argument besides the module-level
  \<open>GPU_AVAILABLE\<close>, no check, no failure.
\<close>

definition init :: "bool \<Rightarrow> extractor" where
  "init gpu_available =
     \<lparr>use_gpu = gpu_available,
      params = \<lparr>max_vector_length = 18, optimal_length = 12, min_vector_length = 4,
                ffmpeg_scale = 0.4, flow_scale = 0.25, edge_scale = 0.5,
                quality_threshold = 0.3, confidence_threshold = 0.4,
                max_vectors_per_frame = 50\<rparr>\<rparr>"

subsection \<open>Images as seen through the OpenCV primitives\<close>

text \<open>
  The vision primitives are outside the repository. An image is modelled by what
  the primitives return on it; each call that can raise carries its outcome.
\<close>

record contour =
  contourArea :: real
  m00 :: real
  m10 :: real
  m01 :: real
  len :: nat
  fitEllipse :: "exn + (real \<times> real \<times> real)"

record mask =
  countNonZero :: nat
  findContours :: "exn + contour list"

record hsv_image =
  inRange :: "nat list \<Rightarrow> nat list \<Rightarrow> exn + mask"

record flow_field =
  flow_shape :: "nat \<times> nat"
  flow_at :: "int \<Rightarrow> int \<Rightarrow> real \<times> real"

text \<open>
  \<open>calcOpticalFlowFarneback\<close> is the flow between \<open>np.roll(gray, (1, 1))\<close> and
  \<open>gray\<close>; \<open>HoughLinesP\<close> is \<open>cv2.HoughLinesP\<close> on \<open>cv2.Canny(gray, 50, 150)\<close>,
  \<open>None\<close> when no segment is found.
\<close>

record gray_image =
  calcOpticalFlowFarneback :: "exn + flow_field"
  HoughLinesP :: "exn + (int \<times> int \<times> int \<times> int) list option"

record image =
  shape :: "nat \<times> nat"
  cvtColor_HSV :: "exn + hsv_image"
  cvtColor_GRAY :: "exn + gray_image"

text \<open>A decoded frame: its own buffer, and what \<open>cv2.resize\<close> makes of it.\<close>

record frame =
  buffer :: image
  resize :: "int \<Rightarrow> int \<Rightarrow> exn + image"

text \<open>The file system: what \<open>glob.glob\<close> lists and what \<open>cv2.imread\<close> decodes.\<close>

record world =
  glob_png :: "string list"
  imread :: "string \<Rightarrow> frame option"

subsection \<open>Numeric helpers\<close>

text \<open>Python's \<open>int(x)\<close> on a float truncates towards zero.\<close>

definition py_int :: "real \<Rightarrow> int" where
  "py_int x = (if 0 \<le> x then \<lfloor>x\<rfloor> else \<lceil>x\<rceil>)"

definition radians :: "real \<Rightarrow> real" where
  "radians a = a * pi / 180"

definition arctan2 :: "real \<Rightarrow> real \<Rightarrow> real" where
  "arctan2 y x =
     (if 0 < x then arctan (y / x)
      else if x < 0 \<and> 0 \<le> y then arctan (y / x) + pi
      else if x < 0 then arctan (y / x) - pi
      else if 0 < y then pi / 2
      else if y < 0 then - (pi / 2)
      else 0)"

text \<open>\<open>np.sqrt(dx*dx + dy*dy)\<close>.\<close>

definition vector_length :: "real \<Rightarrow> real \<Rightarrow> real" where
  "vector_length dx dy = sqrt (dx * dx + dy * dy)"

text \<open>\<open>range(start, stop, step)\<close> for a positive step.\<close>

function py_range :: "int \<Rightarrow> int \<Rightarrow> int \<Rightarrow> int list" where
  "py_range i stop step =
     (if 0 < step \<and> i < stop then i # py_range (i + step) stop step else [])"
  by pat_completeness auto
termination
  by (relation "measure (\<lambda>(i, stop, step). nat (stop - i))") auto

declare py_range.simps [simp del]

section \<open>The three extractors\<close>

text \<open>
  The block "Apply length constraints", written out identically in the three
  extractors: the length of \<open>(dx, dy)\<close>, and the rescaling to
  \<open>max_vector_length\<close> when it is exceeded. Returns \<open>(dx, dy, vector_length)\<close>.
\<close>

definition constrain :: "params \<Rightarrow> real \<Rightarrow> real \<Rightarrow> real \<times> real \<times> real" where
  "constrain p dx dy =
     (let vl = vector_length dx dy in
      if vl > max_vector_length p
      then (let scale = max_vector_length p / vl
            in (dx * scale, dy * scale, max_vector_length p))
      else (dx, dy, vl))"

definition green_ranges :: "(nat list \<times> nat list) list" where
  "green_ranges =
     [([40, 60, 60], [80, 255, 255]),
      ([35, 45, 45], [85, 255, 255]),
      ([45, 80, 80], [75, 255, 255])]"

text \<open>The body of \<open>for contour in contours\<close>: the vectors it appends, or the exception.\<close>

definition ffmpeg_contour :: "params \<Rightarrow> nat \<Rightarrow> contour \<Rightarrow> exn + vector list" where
  "ffmpeg_contour p range_idx c =
     (let area = contourArea c in
      if 2 \<le> area \<and> area \<le> 50 then
        if m00 c > 0 then
          (let cx = py_int (m10 c / m00 c); cy = py_int (m01 c / m00 c) in
           if len c \<ge> 5 then
             (case fitEllipse c of
                Inl e \<Rightarrow> Inl e
              | Inr (width, height, ang) \<Rightarrow>
                  (let mag = max width height * ffmpeg_scale p;
                       angle_rad = radians ang;
                       (dx, dy, vl) = constrain p (mag * cos angle_rad) (mag * sin angle_rad)
                   in if vl \<ge> min_vector_length p
                      then Inr [\<lparr>center = (cx, cy), direction = (dx, dy), magnitude = vl,
                                 angle = angle_rad, quality = min (area / 50) 1,
                                 confidence = 0.9 - real range_idx * 0.1,
                                 method' = Ffmpeg, evidence = area\<rparr>]
                      else Inr []))
           else Inr [])
        else Inr []
      else Inr [])"

fun ffmpeg_contours :: "params \<Rightarrow> nat \<Rightarrow> contour list \<Rightarrow> vector list \<Rightarrow> exn + vector list" where
  "ffmpeg_contours p range_idx [] vectors = Inr vectors"
| "ffmpeg_contours p range_idx (c # cs) vectors =
     (case ffmpeg_contour p range_idx c of
        Inl e \<Rightarrow> Inl e
      | Inr vs \<Rightarrow> ffmpeg_contours p range_idx cs (vectors @ vs))"

text \<open>The loop \<open>for range_idx, (lower, upper) in enumerate(green_ranges)\<close>.\<close>

fun ffmpeg_ranges ::
  "params \<Rightarrow> hsv_image \<Rightarrow> (nat \<times> nat list \<times> nat list) list \<Rightarrow> vector list \<Rightarrow> exn + vector list" where
  "ffmpeg_ranges p hsv [] vectors = Inr vectors"
| "ffmpeg_ranges p hsv ((range_idx, lower, upper) # rs) vectors =
     (case inRange hsv lower upper of
        Inl e \<Rightarrow> Inl e
      | Inr green_mask \<Rightarrow>
          if countNonZero green_mask > 0 then
            (case findContours green_mask of
               Inl e \<Rightarrow> Inl e
             | Inr contours \<Rightarrow>
                 (case ffmpeg_contours p range_idx contours vectors of
                    Inl e \<Rightarrow> Inl e
                  | Inr vectors' \<Rightarrow> ffmpeg_ranges p hsv rs vectors'))
          else ffmpeg_ranges p hsv rs vectors)"

definition extract_ffmpeg_vectors :: "params \<Rightarrow> image \<Rightarrow> exn + vector list" where
  "extract_ffmpeg_vectors p fr =
     (case cvtColor_HSV fr of
        Inl e \<Rightarrow> Inl e
      | Inr hsv \<Rightarrow> ffmpeg_ranges p hsv (enumerate 0 green_ranges) [])"

text \<open>The body of the nested grid iteration of the optical-flow extractor.\<close>

definition flow_sample :: "params \<Rightarrow> flow_field \<Rightarrow> int \<Rightarrow> int \<Rightarrow> vector list" where
  "flow_sample p fl y x =
     (let (fx, fy) = flow_at fl y x;
          mag = sqrt (fx * fx + fy * fy)
      in if mag > 0.8 then
           (let (dx, dy, vl) = constrain p (fx * flow_scale p) (fy * flow_scale p)
            in if vl \<ge> min_vector_length p
               then [\<lparr>center = (x, y), direction = (dx, dy), magnitude = vl,
                       angle = arctan2 fy fx, quality = min (mag / 4) 1,
                       confidence = 0.7, method' = Flow, evidence = mag\<rparr>]
               else [])
         else [])"

text \<open>
  The grey conversion is outside the \<open>try\<close>; the flow computation and the
  sampling are inside, and \<open>except Exception\<close> leaves \<open>vectors\<close> as it is. Only the
  flow computation can raise, before anything is appended.
\<close>

definition extract_optical_flow_vectors :: "params \<Rightarrow> image \<Rightarrow> exn + vector list" where
  "extract_optical_flow_vectors p fr =
     (case cvtColor_GRAY fr of
        Inl e \<Rightarrow> Inl e
      | Inr gray \<Rightarrow>
          (case calcOpticalFlowFarneback gray of
             Inl e \<Rightarrow> Inr []
           | Inr fl \<Rightarrow>
               (let (h, w) = flow_shape fl; step = 25 in
                Inr (concat (map (\<lambda>y. concat (map (\<lambda>x. flow_sample p fl y x)
                                                  (py_range step (int w - step) step)))
                                 (py_range step (int h - step) step))))))"

text \<open>The body of \<open>for line in lines\<close>.\<close>

definition edge_line :: "params \<Rightarrow> int \<times> int \<times> int \<times> int \<Rightarrow> vector list" where
  "edge_line p seg =
     (let (x1, y1, x2, y2) = seg;
          cx = (x1 + x2) div 2; cy = (y1 + y2) div 2;
          dxi = x2 - x1; dyi = y2 - y1;
          original_length = sqrt (real_of_int (dxi * dxi + dyi * dyi));
          (dx, dy, vl) = constrain p (real_of_int dxi * edge_scale p) (real_of_int dyi * edge_scale p)
      in if vl \<ge> min_vector_length p
         then [\<lparr>center = (cx, cy), direction = (dx, dy), magnitude = vl,
                 angle = arctan2 dy dx, quality = min (original_length / 30) 1,
                 confidence = 0.6, method' = Edge, evidence = original_length\<rparr>]
         else [])"

definition extract_edge_vectors :: "params \<Rightarrow> image \<Rightarrow> exn + vector list" where
  "extract_edge_vectors p fr =
     (case cvtColor_GRAY fr of
        Inl e \<Rightarrow> Inl e
      | Inr gray \<Rightarrow>
          (case HoughLinesP gray of
             Inl e \<Rightarrow> Inl e
           | Inr None \<Rightarrow> Inr []
           | Inr (Some lines) \<Rightarrow> Inr (concat (map (edge_line p) lines))))"

section \<open>Fusion: \<open>extract_motion_vectors_from_frame\<close>\<close>

text \<open>The result dictionaries: the values they hold, and the dictionary as a map.\<close>

record stats =
  min_stat :: real
  max_stat :: real
  avg :: real

datatype pyval =
    VVectors "vector list"
  | VStr string
  | VSize "nat \<times> nat"
  | VInt int
  | VCounts "(detection_method \<times> nat) list"
  | VStats stats

type_synonym result = "string \<rightharpoonup> pyval"

text \<open>
  The resize step: the buffer the extractors run on, and \<open>scale_back\<close>.
\<close>

definition resize_frame :: "frame \<Rightarrow> exn + image \<times> real" where
  "resize_frame fr =
     (let (h, w) = shape (buffer fr) in
      if max h w > 600 then
        (let scale = 600 / real (max h w);
             new_w = py_int (real w * scale); new_h = py_int (real h * scale)
         in case resize fr new_w new_h of
              Inl e \<Rightarrow> Inl e
            | Inr frame_resized \<Rightarrow> Inr (frame_resized, real (max h w) / 600))
      else Inr (buffer fr, 1))"

text \<open>\<open>all_vectors\<close> after the three \<open>extend\<close> calls; no call is inside a \<open>try\<close>.\<close>

definition extract_all :: "params \<Rightarrow> image \<Rightarrow> exn + vector list" where
  "extract_all p fr =
     (case extract_ffmpeg_vectors p fr of
        Inl e \<Rightarrow> Inl e
      | Inr ffmpeg_vectors \<Rightarrow>
          (case extract_optical_flow_vectors p fr of
             Inl e \<Rightarrow> Inl e
           | Inr flow_vectors \<Rightarrow>
               (case extract_edge_vectors p fr of
                  Inl e \<Rightarrow> Inl e
                | Inr edge_vectors \<Rightarrow> Inr (ffmpeg_vectors @ flow_vectors @ edge_vectors))))"

text \<open>"Scale vectors back to original size": the update of one dictionary.\<close>

definition scale_vector :: "real \<Rightarrow> vector \<Rightarrow> vector" where
  "scale_vector scale_back v =
     (let (cx, cy) = center v; (dx, dy) = direction v in
      v\<lparr>center := (py_int (real_of_int cx * scale_back), py_int (real_of_int cy * scale_back)),
        direction := (dx * scale_back * 0.8, dy * scale_back * 0.8),
        magnitude := magnitude v * (scale_back * 0.8)\<rparr>)"

definition scale_back_vectors :: "real \<Rightarrow> vector list \<Rightarrow> vector list" where
  "scale_back_vectors scale_back all_vectors =
     (if scale_back \<noteq> 1 then map (scale_vector scale_back) all_vectors else all_vectors)"

definition filtered_vectors :: "params \<Rightarrow> vector list \<Rightarrow> vector list" where
  "filtered_vectors p all_vectors =
     filter (\<lambda>v. quality v \<ge> quality_threshold p \<and> confidence v \<ge> confidence_threshold p)
       all_vectors"

text \<open>
  \<open>list.sort(key=..., reverse=True)\<close> is stable: elements with equal keys keep
  their order. On real keys that is the stable ascending sort by the negated key.
\<close>

definition scored_vectors :: "params \<Rightarrow> vector list \<Rightarrow> (real \<times> vector) list" where
  "scored_vectors p all_vectors =
     sort_key (\<lambda>x. - fst x)
       (map (\<lambda>v. (quality v * confidence v, v)) (filtered_vectors p all_vectors))"

definition center_dist :: "vector \<Rightarrow> vector \<Rightarrow> real" where
  "center_dist v existing =
     sqrt (real_of_int ((fst (center v) - fst (center existing))\<^sup>2
                      + (snd (center v) - snd (center existing))\<^sup>2))"

definition is_duplicate :: "vector \<Rightarrow> vector list \<Rightarrow> bool" where
  "is_duplicate v final_vectors = list_ex (\<lambda>existing. center_dist v existing < 15) final_vectors"

text \<open>The loop "Remove duplicates", with its \<open>break\<close>.\<close>

fun remove_duplicates :: "params \<Rightarrow> vector list \<Rightarrow> (real \<times> vector) list \<Rightarrow> vector list" where
  "remove_duplicates p final_vectors [] = final_vectors"
| "remove_duplicates p final_vectors ((score, v) # rest) =
     (if is_duplicate v final_vectors then remove_duplicates p final_vectors rest
      else (let final_vectors' = final_vectors @ [v] in
            if int (length final_vectors') \<ge> max_vectors_per_frame p then final_vectors'
            else remove_duplicates p final_vectors' rest))"

definition final_vectors :: "params \<Rightarrow> real \<Rightarrow> vector list \<Rightarrow> vector list" where
  "final_vectors p scale_back all_vectors =
     remove_duplicates p [] (scored_vectors p (scale_back_vectors scale_back all_vectors))"

subsection \<open>Statistics\<close>

text \<open>\<open>method_counts[method] = method_counts.get(method, 0) + 1\<close>, keys in insertion order.\<close>

fun method_counts :: "vector list \<Rightarrow> (detection_method \<times> nat) list \<Rightarrow> (detection_method \<times> nat) list" where
  "method_counts [] counts = counts"
| "method_counts (v # vs) counts =
     method_counts vs
       (AList.update (method' v) (case map_of counts (method' v) of None \<Rightarrow> 1 | Some n \<Rightarrow> n + 1) counts)"

definition summary :: "real list \<Rightarrow> stats" where
  "summary xs =
     (case xs of
        [] \<Rightarrow> \<lparr>min_stat = 0, max_stat = 0, avg = 0\<rparr>
      | x # rest \<Rightarrow> \<lparr>min_stat = fold min rest x, max_stat = fold max rest x,
                     avg = sum_list xs / real (length xs)\<rparr>)"

text \<open>The two dictionaries \<open>extract_motion_vectors_from_frame\<close> returns.\<close>

definition load_error :: result where
  "load_error = [''vectors'' \<mapsto> VVectors [], ''error'' \<mapsto> VStr ''Could not load frame'']"

definition frame_result :: "string \<Rightarrow> nat \<Rightarrow> nat \<Rightarrow> vector list \<Rightarrow> result" where
  "frame_result frame_path w h final =
     [''vectors'' \<mapsto> VVectors final,
      ''frame_path'' \<mapsto> VStr frame_path,
      ''frame_size'' \<mapsto> VSize (w, h),
      ''total_vectors'' \<mapsto> VInt (int (length final)),
      ''method_distribution'' \<mapsto> VCounts (method_counts final []),
      ''length_stats'' \<mapsto> VStats (summary (map magnitude final)),
      ''quality_stats'' \<mapsto> VStats (summary (map quality final))]"

definition extract_motion_vectors_from_frame :: "extractor \<Rightarrow> world \<Rightarrow> string \<Rightarrow> exn + result" where
  "extract_motion_vectors_from_frame self wd frame_path =
     (case imread wd frame_path of
        None \<Rightarrow> Inr load_error
      | Some fr \<Rightarrow>
          (let (h, w) = shape (buffer fr) in
           case resize_frame fr of
             Inl e \<Rightarrow> Inl e
           | Inr (frame_resized, scale_back) \<Rightarrow>
               (case extract_all (params self) frame_resized of
                  Inl e \<Rightarrow> Inl e
                | Inr all_vectors \<Rightarrow>
                    Inr (frame_result frame_path w h
                           (final_vectors (params self) scale_back all_vectors)))))"

section \<open>The batch driver: \<open>process_all_frames\<close>\<close>

fun contains :: "string \<Rightarrow> string \<Rightarrow> bool" where
  "contains s [] = (s = [])"
| "contains s (c # cs) = (take (length s) (c # cs) = s \<or> contains s cs)"

definition find_motion_vector_frames :: "world \<Rightarrow> string list" where
  "find_motion_vector_frames wd =
     sort (filter (\<lambda>frame_path. \<not> contains ''detection_analysis'' frame_path) (glob_png wd))"

text \<open>
  Console output is not modelled, the dictionary reads that feed it are: a missing
  key raises \<open>KeyError\<close>, a value of the wrong kind \<open>TypeError\<close>.
\<close>

definition print_frame :: "result \<Rightarrow> exn + unit" where
  "print_frame r =
     (if r ''error'' \<noteq> None then Inr ()
      else (case r ''vectors'' of
              None \<Rightarrow> Inl KeyError
            | Some (VVectors vectors) \<Rightarrow>
                (case r ''method_distribution'' of
                   None \<Rightarrow> Inl KeyError
                 | Some method_dist \<Rightarrow>
                     (case r ''length_stats'' of
                        None \<Rightarrow> Inl KeyError
                      | Some (VStats length_stats) \<Rightarrow> Inr ()
                      | Some _ \<Rightarrow> Inl TypeError))
            | Some _ \<Rightarrow> Inl TypeError))"

fun frame_loop :: "extractor \<Rightarrow> world \<Rightarrow> string list \<Rightarrow> result list \<Rightarrow> exn + result list" where
  "frame_loop self wd [] results = Inr results"
| "frame_loop self wd (frame_path # rest) results =
     (case extract_motion_vectors_from_frame self wd frame_path of
        Inl e \<Rightarrow> Inl e
      | Inr r \<Rightarrow>
          (case print_frame r of
             Inl e \<Rightarrow> Inl e
           | Inr u \<Rightarrow> frame_loop self wd rest (results @ [r])))"

text \<open>The reads of the section "Overall statistics", over the results without \<open>error\<close>.\<close>

fun overall_statistics :: "result list \<Rightarrow> exn + unit" where
  "overall_statistics [] = Inr ()"
| "overall_statistics (r # valid_results) =
     (case r ''total_vectors'' of
        None \<Rightarrow> Inl KeyError
      | Some (VInt n) \<Rightarrow>
          (case r ''vectors'' of
             None \<Rightarrow> Inl KeyError
           | Some (VVectors vectors) \<Rightarrow> overall_statistics valid_results
           | Some _ \<Rightarrow> Inl TypeError)
      | Some _ \<Rightarrow> Inl TypeError)"

definition process_all_frames :: "extractor \<Rightarrow> world \<Rightarrow> exn + result list" where
  "process_all_frames self wd =
     (let frame_paths = find_motion_vector_frames wd in
      if frame_paths = [] then Inr []
      else (case frame_loop self wd frame_paths [] of
              Inl e \<Rightarrow> Inl e
            | Inr results \<Rightarrow>
                (case overall_statistics (filter (\<lambda>r. r ''error'' = None) results) of
                   Inl e \<Rightarrow> Inl e
                 | Inr u \<Rightarrow> Inr results)))"

section \<open>Notions used in the statements\<close>

text \<open>The Euclidean norm of a detection's \<open>direction\<close>.\<close>

definition direction_norm :: "vector \<Rightarrow> real" where
  "direction_norm v = sqrt ((fst (direction v))\<^sup>2 + (snd (direction v))\<^sup>2)"

text \<open>
  The method priority of the specification: \<open>FFMPEG_ARROW\<close> before
  \<open>OPTICAL_FLOW\<close> before \<open>EDGE_LINE\<close>; a smaller number is a higher priority.
\<close>

definition priority :: "detection_method \<Rightarrow> nat" where
  "priority m = (case m of Ffmpeg \<Rightarrow> 0 | Flow \<Rightarrow> 1 | Edge \<Rightarrow> 2)"

text \<open>What each extractor guarantees of a vector it creates.\<close>

definition well_formed :: "params \<Rightarrow> detection_method \<Rightarrow> vector \<Rightarrow> bool" where
  "well_formed p m v =
     (method' v = m \<and> min_vector_length p \<le> magnitude v \<and> magnitude v \<le> max_vector_length p
      \<and> (0 \<le> max_vector_length p \<longrightarrow>
           magnitude v = vector_length (fst (direction v)) (snd (direction v))))"

text \<open>\<open>result['vectors']\<close> of a call that returned; empty when the call raised.\<close>

definition vectors_of :: "exn + result \<Rightarrow> vector list" where
  "vectors_of res =
     (case res of
        Inl e \<Rightarrow> []
      | Inr r \<Rightarrow> (case r ''vectors'' of Some (VVectors vs) \<Rightarrow> vs | _ \<Rightarrow> []))"

section \<open>Example inputs\<close>

text \<open>
  An image without green pixels and without apparent motion, with the line segments
  given; a frame of 100 by 100 pixels made of it.
\<close>

definition empty_mask :: mask where
  "empty_mask = \<lparr>countNonZero = 0, findContours = Inr []\<rparr>"

definition no_green :: hsv_image where
  "no_green = \<lparr>inRange = (\<lambda>lower upper. Inr empty_mask)\<rparr>"

definition still_flow :: "nat \<times> nat \<Rightarrow> flow_field" where
  "still_flow sh = \<lparr>flow_shape = sh, flow_at = (\<lambda>y x. (0, 0))\<rparr>"

definition quiet_image :: "nat \<times> nat \<Rightarrow> (int \<times> int \<times> int \<times> int) list option \<Rightarrow> image" where
  "quiet_image sh lines =
     \<lparr>shape = sh, cvtColor_HSV = Inr no_green,
      cvtColor_GRAY = Inr \<lparr>calcOpticalFlowFarneback = Inr (still_flow sh),
                           HoughLinesP = Inr lines\<rparr>\<rparr>"

definition small_frame :: "(int \<times> int \<times> int \<times> int) list option \<Rightarrow> frame" where
  "small_frame lines =
     \<lparr>buffer = quiet_image (100, 100) lines,
      resize = (\<lambda>w h. Inr (quiet_image (nat h, nat w) None))\<rparr>"

text \<open>
  Two vertical segments of 20 pixels whose midpoints are exactly 15 pixels apart, in
  the only frame that loads; \<open>edge_at x\<close> is the detection of the segment at
  abscissa \<open>x\<close>.
\<close>

definition boundary_world :: world where
  "boundary_world =
     \<lparr>glob_png = [''b.png'', ''detection_analysis.png'', ''a.png''],
      imread = (\<lambda>path. if path = ''a.png''
                         then Some (small_frame (Some [(0, 0, 0, 20), (15, 0, 15, 20)]))
                         else None)\<rparr>"

definition edge_at :: "int \<Rightarrow> vector" where
  "edge_at x = \<lparr>center = (x, 10), direction = (0, 10), magnitude = 10, angle = pi / 2,
                quality = 2 / 3, confidence = 0.6, method' = Edge, evidence = 20\<rparr>"

definition quiet_world :: world where
  "quiet_world =
     \<lparr>glob_png = [''still.png'', ''missing.png''],
      imread = (\<lambda>path. if path = ''still.png'' then Some (small_frame None) else None)\<rparr>"

text \<open>
  A frame of 1200 by 1200 pixels; its copy of 600 by 600 holds one horizontal segment
  of 100 pixels. \<open>clamped_edge\<close> is its detection on the copy, \<open>mapped_edge\<close> the
  detection mapped back to the frame.
\<close>

definition wide_frame :: frame where
  "wide_frame =
     \<lparr>buffer = quiet_image (1200, 1200) (Some [(200, 200, 400, 200)]),
      resize = (\<lambda>w h. Inr (quiet_image (nat h, nat w) (Some [(100, 100, 200, 100)])))\<rparr>"

definition wide_world :: world where
  "wide_world =
     \<lparr>glob_png = [''wide.png''],
      imread = (\<lambda>path. if path = ''wide.png'' then Some wide_frame else None)\<rparr>"

definition clamped_edge :: vector where
  "clamped_edge = \<lparr>center = (150, 100), direction = (18, 0), magnitude = 18, angle = 0,
                    quality = 1, confidence = 0.6, method' = Edge, evidence = 100\<rparr>"

definition mapped_edge :: vector where
  "mapped_edge = \<lparr>center = (300, 200), direction = (28.8, 0), magnitude = 28.8, angle = 0,
                   quality = 1, confidence = 0.6, method' = Edge, evidence = 100\<rparr>"

text \<open>
  A frame with one green blob of area 17.5 at (50, 50), seen by the first two colour
  ranges, and a vertical segment of 15 pixels through it.
\<close>

definition blob :: contour where
  "blob = \<lparr>contourArea = 17.5, m00 = 17.5, m10 = 875, m01 = 875, len = 8,
            fitEllipse = Inr (12, 2, 0)\<rparr>"

definition green_image :: image where
  "green_image =
     \<lparr>shape = (100, 100),
      cvtColor_HSV = Inr \<lparr>inRange = (\<lambda>lower upper.
          if lower = [45, 80, 80] then Inr empty_mask
          else Inr \<lparr>countNonZero = 18, findContours = Inr [blob]\<rparr>)\<rparr>,
      cvtColor_GRAY = Inr \<lparr>calcOpticalFlowFarneback = Inr (still_flow (100, 100)),
                           HoughLinesP = Inr (Some [(50, 45, 50, 60)])\<rparr>\<rparr>"

definition green_world :: world where
  "green_world =
     \<lparr>glob_png = [''green.png''],
      imread = (\<lambda>path. if path = ''green.png''
                         then Some \<lparr>buffer = green_image,
                                    resize = (\<lambda>w h. Inr (quiet_image (nat h, nat w) None))\<rparr>
                         else None)\<rparr>"

definition arrow :: "real \<Rightarrow> vector" where
  "arrow conf = \<lparr>center = (50, 50), direction = (4.8, 0), magnitude = 4.8, angle = 0,
                  quality = 0.35, confidence = conf, method' = Ffmpeg, evidence = 17.5\<rparr>"

definition short_edge :: vector where
  "short_edge = \<lparr>center = (50, 52), direction = (0, 7.5), magnitude = 7.5, angle = pi / 2,
                  quality = 0.5, confidence = 0.6, method' = Edge, evidence = 15\<rparr>"

text \<open>A frame on which the line detection raises.\<close>

definition raising_image :: image where
  "raising_image =
     \<lparr>shape = (100, 100), cvtColor_HSV = Inr no_green,
      cvtColor_GRAY = Inr \<lparr>calcOpticalFlowFarneback = Inr (still_flow (100, 100)),
                           HoughLinesP = Inl CvError\<rparr>\<rparr>"

definition raising_world :: world where
  "raising_world =
     \<lparr>glob_png = [''a.png''],
      imread = (\<lambda>path. if path = ''a.png''
                         then Some \<lparr>buffer = raising_image,
                                    resize = (\<lambda>w h. Inr (quiet_image (nat h, nat w) None))\<rparr>
                         else None)\<rparr>"

text \<open>
  A batch of two frames: the first cannot be loaded, the line detection raises on the
  second.
\<close>

definition mixed_world :: world where
  "mixed_world =
     \<lparr>glob_png = [''b.png'', ''a.png''],
      imread = (\<lambda>path. if path = ''b.png''
                         then Some \<lparr>buffer = raising_image,
                                    resize = (\<lambda>w h. Inr (quiet_image (nat h, nat w) None))\<rparr>
                         else None)\<rparr>"

text \<open>
  Extractors whose \<open>params\<close> dictionary was changed after construction: a higher
  quality threshold, a cap of one vector, a minimum length above the maximum.
\<close>

definition strict_extractor :: extractor where
  "strict_extractor = (init False)\<lparr>params := (params (init False))\<lparr>quality_threshold := 0.4\<rparr>\<rparr>"

definition capped_extractor :: extractor where
  "capped_extractor = (init False)\<lparr>params := (params (init False))\<lparr>max_vectors_per_frame := 1\<rparr>\<rparr>"

definition unchecked_extractor :: extractor where
  "unchecked_extractor = (init False)\<lparr>params := (params (init False))\<lparr>min_vector_length := 20\<rparr>\<rparr>"

section \<open>What the extractors guarantee\<close>

lemma vector_length_scale: "vector_length (dx * s) (dy * s) = \<bar>s\<bar> * vector_length dx dy"
proof -
  have "dx * s * (dx * s) + dy * s * (dy * s) = s\<^sup>2 * (dx * dx + dy * dy)"
    by (simp add: power2_eq_square algebra_simps)
  then show ?thesis
    by (simp add: vector_length_def real_sqrt_mult)
qed

lemma vector_length_nonneg: "0 \<le> vector_length dx dy"
  by (simp add: vector_length_def)

lemma constrain_length:
  assumes "constrain p dx dy = (dx', dy', vl)"
  shows "vl \<le> max_vector_length p"
    and "0 \<le> max_vector_length p \<Longrightarrow> vl = vector_length dx' dy'"
proof -
  let ?L = "vector_length dx dy" and ?M = "max_vector_length p"
  show "vl \<le> ?M"
    using assms by (auto simp: constrain_def Let_def split: if_splits)
  assume M: "0 \<le> ?M"
  show "vl = vector_length dx' dy'"
  proof (cases "?L > ?M")
    case True
    then have pos: "0 < ?L" using M by linarith
    from True assms have eq: "dx' = dx * (?M / ?L)" "dy' = dy * (?M / ?L)" "vl = ?M"
      by (auto simp: constrain_def Let_def)
    have "vector_length dx' dy' = \<bar>?M / ?L\<bar> * ?L"
      unfolding eq by (rule vector_length_scale)
    also have "\<dots> = ?M" using pos M by simp
    finally show ?thesis using eq by simp
  next
    case False
    with assms show ?thesis by (auto simp: constrain_def Let_def)
  qed
qed

lemma constrain_le: "snd (snd (constrain p dx dy)) \<le> max_vector_length p"
  using constrain_length(1) [of p dx dy] by (cases "constrain p dx dy") auto

lemma constrain_eq:
  "0 \<le> max_vector_length p \<Longrightarrow>
   snd (snd (constrain p dx dy)) =
     vector_length (fst (constrain p dx dy)) (fst (snd (constrain p dx dy)))"
  using constrain_length(2) [of p dx dy] by (cases "constrain p dx dy") auto

lemma ffmpeg_contour_well_formed:
  assumes "ffmpeg_contour p i c = Inr vs" and "v \<in> set vs"
  shows "well_formed p Ffmpeg v"
  using assms
  by (auto simp: ffmpeg_contour_def Let_def well_formed_def split_beta constrain_le constrain_eq
           split: if_splits sum.splits)

lemma ffmpeg_contours_well_formed:
  assumes "ffmpeg_contours p i cs acc = Inr vs" and "\<forall>v\<in>set acc. well_formed p Ffmpeg v"
  shows "\<forall>v\<in>set vs. well_formed p Ffmpeg v"
  using assms
proof (induction cs arbitrary: acc)
  case Nil
  then show ?case by simp
next
  case (Cons c cs)
  from Cons.prems(1) obtain new where new: "ffmpeg_contour p i c = Inr new"
    and rest: "ffmpeg_contours p i cs (acc @ new) = Inr vs"
    by (auto split: sum.splits)
  have "\<forall>v\<in>set (acc @ new). well_formed p Ffmpeg v"
    using Cons.prems(2) ffmpeg_contour_well_formed [OF new] by auto
  with Cons.IH [OF rest] show ?case by blast
qed

lemma ffmpeg_ranges_well_formed:
  assumes "ffmpeg_ranges p hsv rs acc = Inr vs" and "\<forall>v\<in>set acc. well_formed p Ffmpeg v"
  shows "\<forall>v\<in>set vs. well_formed p Ffmpeg v"
  using assms
proof (induction p hsv rs acc rule: ffmpeg_ranges.induct)
  case (1 p hsv vectors)
  then show ?case by simp
next
  case (2 p hsv range_idx lower upper rs vectors)
  from "2.prems"(1) obtain green_mask where gm: "inRange hsv lower upper = Inr green_mask"
    by (auto split: sum.splits)
  show ?case
  proof (cases "countNonZero green_mask > 0")
    case True
    with gm "2.prems"(1) obtain contours vectors'
      where fc: "findContours green_mask = Inr contours"
        and cs: "ffmpeg_contours p range_idx contours vectors = Inr vectors'"
        and rest: "ffmpeg_ranges p hsv rs vectors' = Inr vs"
      by (auto split: sum.splits)
    have "\<forall>v\<in>set vectors'. well_formed p Ffmpeg v"
      using ffmpeg_contours_well_formed [OF cs "2.prems"(2)] .
    with "2.IH"(1) [OF gm True fc cs rest] show ?thesis .
  next
    case False
    with gm "2.prems"(1) have "ffmpeg_ranges p hsv rs vectors = Inr vs" by simp
    with "2.IH"(2) [OF gm False] "2.prems"(2) show ?thesis by blast
  qed
qed

lemma extract_ffmpeg_well_formed:
  assumes "extract_ffmpeg_vectors p fr = Inr vs" and "v \<in> set vs"
  shows "well_formed p Ffmpeg v"
  using assms ffmpeg_ranges_well_formed [of p _ "enumerate 0 green_ranges" "[]" vs]
  by (auto simp: extract_ffmpeg_vectors_def split: sum.splits)

lemma flow_sample_well_formed:
  assumes "v \<in> set (flow_sample p fl y x)"
  shows "well_formed p Flow v"
  using assms
  by (auto simp: flow_sample_def Let_def well_formed_def split_beta constrain_le constrain_eq
           split: if_splits)

lemma extract_flow_well_formed:
  assumes "extract_optical_flow_vectors p fr = Inr vs" and "v \<in> set vs"
  shows "well_formed p Flow v"
  using assms
  by (auto simp: extract_optical_flow_vectors_def Let_def
           split: sum.splits prod.splits dest: flow_sample_well_formed)

lemma edge_line_well_formed:
  assumes "v \<in> set (edge_line p seg)"
  shows "well_formed p Edge v"
  using assms
  by (auto simp: edge_line_def Let_def well_formed_def split_beta constrain_le constrain_eq
           split: if_splits)

lemma extract_edge_well_formed:
  assumes "extract_edge_vectors p fr = Inr vs" and "v \<in> set vs"
  shows "well_formed p Edge v"
  using assms
  by (auto simp: extract_edge_vectors_def
           split: sum.splits option.splits dest: edge_line_well_formed)

section \<open>The fusion stages\<close>

lemma center_dist_commute: "center_dist a b = center_dist b a"
  by (simp add: center_dist_def power2_commute)

lemma remove_duplicates_subset:
  "set (remove_duplicates p acc xs) \<subseteq> set acc \<union> snd ` set xs"
  by (induction p acc xs rule: remove_duplicates.induct) (auto simp: Let_def)

lemma remove_duplicates_length:
  "int (length acc) < max_vectors_per_frame p \<Longrightarrow>
   int (length (remove_duplicates p acc xs)) \<le> max_vectors_per_frame p"
  by (induction p acc xs rule: remove_duplicates.induct) (auto simp: Let_def)

lemma remove_duplicates_far:
  "sorted_wrt (\<lambda>a b. 15 \<le> center_dist a b) acc \<Longrightarrow>
   sorted_wrt (\<lambda>a b. 15 \<le> center_dist a b) (remove_duplicates p acc xs)"
proof (induction p acc xs rule: remove_duplicates.induct)
  case (1 p final_vectors)
  then show ?case by simp
next
  case (2 p final_vectors score v rest)
  show ?case
  proof (cases "is_duplicate v final_vectors")
    case True
    with 2 show ?thesis by simp
  next
    case False
    then have "\<forall>e\<in>set final_vectors. 15 \<le> center_dist e v"
      by (auto simp: is_duplicate_def list_ex_iff center_dist_commute [of v] not_less)
    with "2.prems" have far: "sorted_wrt (\<lambda>a b. 15 \<le> center_dist a b) (final_vectors @ [v])"
      by (simp add: sorted_wrt_append)
    show ?thesis
    proof (cases "int (length (final_vectors @ [v])) \<ge> max_vectors_per_frame p")
      case True
      with False far show ?thesis by (simp add: Let_def)
    next
      case stop: False
      with False "2.IH"(2) [OF False refl stop far] show ?thesis by (simp add: Let_def)
    qed
  qed
qed

lemma scored_vectors_set:
  "snd ` set (scored_vectors p vs) = set (filtered_vectors p vs)"
  by (auto simp: scored_vectors_def image_iff)

lemma final_vectors_subset:
  "set (final_vectors p s vs) \<subseteq> set (filtered_vectors p (scale_back_vectors s vs))"
  using remove_duplicates_subset [of p "[]" "scored_vectors p (scale_back_vectors s vs)"]
  by (simp add: final_vectors_def scored_vectors_set)

lemma filtered_vectors_subset: "set (filtered_vectors p vs) \<subseteq> set vs"
  by (auto simp: filtered_vectors_def)

lemma scale_vector_fields [simp]:
  "method' (scale_vector s v) = method' v"
  "quality (scale_vector s v) = quality v"
  "confidence (scale_vector s v) = confidence v"
  "magnitude (scale_vector s v) = magnitude v * (s * 0.8)"
  "direction (scale_vector s v) = (fst (direction v) * s * 0.8, snd (direction v) * s * 0.8)"
  by (simp_all add: scale_vector_def split_beta)

lemma scale_vector_consistent:
  assumes "0 \<le> s" and "magnitude v = vector_length (fst (direction v)) (snd (direction v))"
  shows "magnitude (scale_vector s v) =
         vector_length (fst (direction (scale_vector s v))) (snd (direction (scale_vector s v)))"
proof -
  have "vector_length (fst (direction v) * s * 0.8) (snd (direction v) * s * 0.8)
        = \<bar>s * 0.8\<bar> * vector_length (fst (direction v)) (snd (direction v))"
    using vector_length_scale [of "fst (direction v)" "s * 0.8" "snd (direction v)"]
    by (simp add: mult.assoc)
  with assms show ?thesis by (simp add: abs_mult)
qed

lemma resize_frame_scale:
  assumes "resize_frame fr = Inr (frame_resized, scale_back)"
  shows "1 \<le> scale_back"
    and "scale_back = 1 \<longleftrightarrow> \<not> max (fst (shape (buffer fr))) (snd (shape (buffer fr))) > 600"
  using assms
  by (auto simp: resize_frame_def Let_def split_beta split: if_splits sum.splits)

lemma extract_all_Inr:
  assumes "extract_all p fr = Inr vs"
  obtains a b c where "extract_ffmpeg_vectors p fr = Inr a"
    and "extract_optical_flow_vectors p fr = Inr b"
    and "extract_edge_vectors p fr = Inr c" and "vs = a @ b @ c"
  using assms by (auto simp: extract_all_def split: sum.splits)

lemma extract_all_well_formed:
  assumes "extract_all p fr = Inr vs" and "v \<in> set vs"
  shows "\<exists>m. well_formed p m v"
proof -
  from assms(1) obtain a b c where abc: "extract_ffmpeg_vectors p fr = Inr a"
    "extract_optical_flow_vectors p fr = Inr b" "extract_edge_vectors p fr = Inr c"
    "vs = a @ b @ c"
    by (rule extract_all_Inr)
  from assms(2) abc(4) consider "v \<in> set a" | "v \<in> set b" | "v \<in> set c" by auto
  then show ?thesis
  proof cases
    case 1 with abc(1) show ?thesis by (blast intro: extract_ffmpeg_well_formed)
  next
    case 2 with abc(2) show ?thesis by (blast intro: extract_flow_well_formed)
  next
    case 3 with abc(3) show ?thesis by (blast intro: extract_edge_well_formed)
  qed
qed

section \<open>The returned dictionaries\<close>

lemma load_error_fields [simp]:
  "load_error ''vectors'' = Some (VVectors [])"
  "load_error ''error'' = Some (VStr ''Could not load frame'')"
  "dom load_error = {''vectors'', ''error''}"
  by (auto simp: load_error_def)

lemma frame_result_fields [simp]:
  "frame_result path w h final ''vectors'' = Some (VVectors final)"
  "frame_result path w h final ''error'' = None"
  "frame_result path w h final ''frame_path'' = Some (VStr path)"
  "frame_result path w h final ''frame_size'' = Some (VSize (w, h))"
  "frame_result path w h final ''total_vectors'' = Some (VInt (int (length final)))"
  "frame_result path w h final ''method_distribution'' = Some (VCounts (method_counts final []))"
  "frame_result path w h final ''length_stats'' = Some (VStats (summary (map magnitude final)))"
  "frame_result path w h final ''quality_stats'' = Some (VStats (summary (map quality final)))"
  by (simp_all add: frame_result_def)

lemma frame_result_dom:
  "dom (frame_result path w h final) =
     {''vectors'', ''frame_path'', ''frame_size'', ''total_vectors'',
      ''method_distribution'', ''length_stats'', ''quality_stats''}"
  by (auto simp: frame_result_def)

lemma extract_frame_cases:
  assumes "extract_motion_vectors_from_frame self wd path = Inr r"
  obtains (unloadable) "imread wd path = None" "r = load_error"
  | (loaded) fr frame_resized scale_back all_vectors
    where "imread wd path = Some fr"
      and "resize_frame fr = Inr (frame_resized, scale_back)"
      and "extract_all (params self) frame_resized = Inr all_vectors"
      and "r = frame_result path (snd (shape (buffer fr))) (fst (shape (buffer fr)))
                 (final_vectors (params self) scale_back all_vectors)"
  using assms
  by (auto simp: extract_motion_vectors_from_frame_def split_beta
           split: option.splits sum.splits)

lemma extract_frame_vectors:
  assumes "extract_motion_vectors_from_frame self wd path = Inr r"
    and "r ''vectors'' = Some (VVectors vs)"
  obtains (unloadable) "imread wd path = None" "vs = []"
  | (loaded) fr frame_resized scale_back all_vectors
    where "imread wd path = Some fr"
      and "resize_frame fr = Inr (frame_resized, scale_back)"
      and "extract_all (params self) frame_resized = Inr all_vectors"
      and "vs = final_vectors (params self) scale_back all_vectors"
  using assms(1)
proof (cases rule: extract_frame_cases)
  case unloadable
  with assms(2) that(1) show ?thesis by simp
next
  case (loaded fr frame_resized scale_back all_vectors)
  with assms(2) that(2) show ?thesis by simp
qed

lemma direction_norm_eq: "direction_norm v = vector_length (fst (direction v)) (snd (direction v))"
  by (simp add: direction_norm_def vector_length_def power2_eq_square)

lemma extract_all_consistent:
  assumes "0 \<le> max_vector_length p" and "extract_all p fr = Inr vs" and "v \<in> set vs"
  shows "magnitude v = direction_norm v"
  using extract_all_well_formed [OF assms(2,3)] assms(1)
  by (auto simp: well_formed_def direction_norm_eq)

lemma scale_back_consistent:
  assumes "0 \<le> s" and "\<forall>v\<in>set vs. magnitude v = direction_norm v"
    and "v \<in> set (scale_back_vectors s vs)"
  shows "magnitude v = direction_norm v"
  using assms scale_vector_consistent [of s]
  unfolding direction_norm_eq scale_back_vectors_def
  by (auto split: if_splits)

section \<open>Stable sorting\<close>

lemma sorted_lex_from_stable:
  fixes f :: "'a \<Rightarrow> 'k::linorder"
  assumes "sorted (map f ys)" and "\<And>k. sorted_wrt Q (filter (\<lambda>x. f x = k) ys)"
  shows "sorted_wrt (\<lambda>a b. f a < f b \<or> (f a = f b \<and> Q a b)) ys"
  using assms
proof (induction ys)
  case Nil
  then show ?case by simp
next
  case (Cons y ys)
  have tail: "sorted_wrt Q (filter (\<lambda>x. f x = k) ys)" for k
    using Cons.prems(2) [of k] by (cases "f y = k") simp_all
  have head: "f y < f z \<or> (f y = f z \<and> Q y z)" if "z \<in> set ys" for z
  proof (cases "f y = f z")
    case True
    with Cons.prems(2) [of "f y"] that show ?thesis by auto
  next
    case False
    with Cons.prems(1) that show ?thesis by force
  qed
  from Cons.IH [OF _ tail] Cons.prems(1) head show ?case by simp
qed

lemma sort_key_keeps_order:
  fixes f :: "'a \<Rightarrow> 'k::linorder"
  assumes "sorted_wrt Q xs"
  shows "sorted_wrt (\<lambda>a b. f a < f b \<or> (f a = f b \<and> Q a b)) (sort_key f xs)"
proof (rule sorted_lex_from_stable)
  show "sorted (map f (sort_key f xs))" by simp
  fix k
  show "sorted_wrt Q (filter (\<lambda>x. f x = k) (sort_key f xs))"
    unfolding sort_key_stable using assms by (rule sorted_wrt_filter)
qed

lemma sorted_map_const:
  fixes k :: nat
  shows "\<forall>x\<in>set xs. g x = k \<Longrightarrow> sorted (map g xs)"
  by (induction xs) auto

lemma extract_all_priority_sorted:
  assumes "extract_all p fr = Inr vs"
  shows "sorted (map (\<lambda>v. priority (method' v)) vs)"
proof -
  from assms obtain a b c where abc: "extract_ffmpeg_vectors p fr = Inr a"
    "extract_optical_flow_vectors p fr = Inr b" "extract_edge_vectors p fr = Inr c"
    "vs = a @ b @ c"
    by (rule extract_all_Inr)
  have "\<forall>v\<in>set a. priority (method' v) = 0"
    using extract_ffmpeg_well_formed [OF abc(1)] by (simp add: well_formed_def priority_def)
  moreover have "\<forall>v\<in>set b. priority (method' v) = 1"
    using extract_flow_well_formed [OF abc(2)] by (simp add: well_formed_def priority_def)
  moreover have "\<forall>v\<in>set c. priority (method' v) = 2"
    using extract_edge_well_formed [OF abc(3)] by (simp add: well_formed_def priority_def)
  ultimately show ?thesis
    unfolding abc(4)
    using sorted_map_const [of a _ 0] sorted_map_const [of b _ 1] sorted_map_const [of c _ 2]
    by (simp add: sorted_append)
qed

lemma scale_back_priority:
  "map (\<lambda>v. priority (method' v)) (scale_back_vectors s vs) = map (\<lambda>v. priority (method' v)) vs"
  by (simp add: scale_back_vectors_def)

section \<open>Greedy selection and thresholds\<close>

lemma remove_duplicates_keeps:
  "set acc \<subseteq> set (remove_duplicates p acc xs)"
  by (induction p acc xs rule: remove_duplicates.induct) (auto simp: Let_def)

lemma remove_duplicates_covers:
  assumes "x \<in> snd ` set xs"
  shows "x \<in> set (remove_duplicates p acc xs)
       \<or> (\<exists>e\<in>set (remove_duplicates p acc xs). center_dist x e < 15)
       \<or> int (length (remove_duplicates p acc xs)) \<ge> max_vectors_per_frame p"
  using assms
proof (induction p acc xs rule: remove_duplicates.induct)
  case (1 p final_vectors)
  then show ?case by simp
next
  case (2 p final_vectors score v rest)
  let ?R = "remove_duplicates p final_vectors ((score, v) # rest)"
  show ?case
  proof (cases "is_duplicate v final_vectors")
    case dup: True
    show ?thesis
    proof (cases "x = v")
      case True
      from dup obtain e where "e \<in> set final_vectors" "center_dist v e < 15"
        by (auto simp: is_duplicate_def list_ex_iff)
      with remove_duplicates_keeps [of final_vectors p "(score, v) # rest"] True
      show ?thesis by blast
    next
      case False
      with "2.prems" have "x \<in> snd ` set rest" by auto
      with "2.IH"(1) [OF dup] dup show ?thesis by simp
    qed
  next
    case nodup: False
    show ?thesis
    proof (cases "int (length (final_vectors @ [v])) \<ge> max_vectors_per_frame p")
      case True
      with nodup have "?R = final_vectors @ [v]" by (simp add: Let_def)
      with True show ?thesis by simp
    next
      case cont: False
      with nodup have R: "?R = remove_duplicates p (final_vectors @ [v]) rest"
        by (simp add: Let_def)
      show ?thesis
      proof (cases "x = v")
        case True
        with remove_duplicates_keeps [of "final_vectors @ [v]" p rest] R show ?thesis by auto
      next
        case False
        with "2.prems" have "x \<in> snd ` set rest" by auto
        with "2.IH"(2) [OF nodup refl cont] R show ?thesis by simp
      qed
    qed
  qed
qed

text \<open>The extractors do not read the two thresholds.\<close>

lemma constrain_thresholds [simp]:
  "constrain (p\<lparr>quality_threshold := q, confidence_threshold := c\<rparr>) = constrain p"
  by (simp add: constrain_def fun_eq_iff Let_def)

lemma ffmpeg_contour_thresholds [simp]:
  "ffmpeg_contour (p\<lparr>quality_threshold := q, confidence_threshold := c\<rparr>) = ffmpeg_contour p"
  by (simp add: ffmpeg_contour_def fun_eq_iff Let_def split_beta split: sum.splits)

lemma ffmpeg_contours_thresholds [simp]:
  "ffmpeg_contours (p\<lparr>quality_threshold := q, confidence_threshold := c\<rparr>) i cs acc
     = ffmpeg_contours p i cs acc"
  by (induction cs arbitrary: acc) (simp_all split: sum.splits)

lemma ffmpeg_ranges_thresholds [simp]:
  "ffmpeg_ranges (p\<lparr>quality_threshold := q, confidence_threshold := c\<rparr>) hsv rs acc
     = ffmpeg_ranges p hsv rs acc"
  by (induction p hsv rs acc rule: ffmpeg_ranges.induct) (simp_all split: sum.splits)

lemma flow_sample_thresholds [simp]:
  "flow_sample (p\<lparr>quality_threshold := q, confidence_threshold := c\<rparr>) = flow_sample p"
  by (simp add: flow_sample_def fun_eq_iff Let_def split_beta)

lemma edge_line_thresholds [simp]:
  "edge_line (p\<lparr>quality_threshold := q, confidence_threshold := c\<rparr>) = edge_line p"
  by (simp add: edge_line_def fun_eq_iff Let_def split_beta)

lemma extract_ffmpeg_thresholds [simp]:
  "extract_ffmpeg_vectors (p\<lparr>quality_threshold := q, confidence_threshold := c\<rparr>)
     = extract_ffmpeg_vectors p"
  by (simp add: extract_ffmpeg_vectors_def fun_eq_iff cong: sum.case_cong)

lemma extract_flow_thresholds [simp]:
  "extract_optical_flow_vectors (p\<lparr>quality_threshold := q, confidence_threshold := c\<rparr>)
     = extract_optical_flow_vectors p"
  by (simp add: extract_optical_flow_vectors_def fun_eq_iff cong: sum.case_cong)

lemma extract_edge_thresholds [simp]:
  "extract_edge_vectors (p\<lparr>quality_threshold := q, confidence_threshold := c\<rparr>)
     = extract_edge_vectors p"
  by (simp add: extract_edge_vectors_def fun_eq_iff cong: sum.case_cong option.case_cong)

lemma extract_all_thresholds:
  "extract_all (p\<lparr>quality_threshold := q, confidence_threshold := c\<rparr>) fr = extract_all p fr"
  by (simp add: extract_all_def cong: sum.case_cong)

lemma filtered_vectors_thresholds:
  assumes "q \<le> quality_threshold p" and "c \<le> confidence_threshold p"
  shows "set (filtered_vectors p vs)
       \<subseteq> set (filtered_vectors (p\<lparr>quality_threshold := q, confidence_threshold := c\<rparr>) vs)"
  using assms by (auto simp: filtered_vectors_def)

section \<open>The frame loop\<close>

lemma print_frame_ok:
  assumes "extract_motion_vectors_from_frame self wd path = Inr r"
  shows "print_frame r = Inr ()"
  using assms by (cases rule: extract_frame_cases) (simp_all add: print_frame_def)

lemma frame_loop_results:
  assumes "\<forall>p\<in>set paths. \<exists>r. extract_motion_vectors_from_frame self wd p = Inr r"
  shows "frame_loop self wd paths results =
         Inr (results @ map (\<lambda>p. projr (extract_motion_vectors_from_frame self wd p)) paths)"
  using assms
proof (induction paths arbitrary: results)
  case Nil
  then show ?case by simp
next
  case (Cons p paths)
  from Cons.prems obtain r where r: "extract_motion_vectors_from_frame self wd p = Inr r"
    by auto
  have "frame_loop self wd (p # paths) results = frame_loop self wd paths (results @ [r])"
    using r print_frame_ok [OF r] by simp
  with Cons.IH [of "results @ [r]"] Cons.prems r show ?case by simp
qed

lemma overall_statistics_ok:
  assumes "\<forall>r\<in>set rs. r ''error'' = None \<and> (\<exists>self wd p. extract_motion_vectors_from_frame self wd p = Inr r)"
  shows "overall_statistics rs = Inr ()"
  using assms
proof (induction rs)
  case Nil
  then show ?case by simp
next
  case (Cons r rs)
  from Cons.prems obtain self wd p
    where r: "extract_motion_vectors_from_frame self wd p = Inr r" and ne: "r ''error'' = None"
    by auto
  from r ne have "r ''total_vectors'' \<noteq> None \<and> (\<exists>n. r ''total_vectors'' = Some (VInt n))
      \<and> (\<exists>vs. r ''vectors'' = Some (VVectors vs))"
    by (cases rule: extract_frame_cases) simp_all
  with Cons show ?case by auto
qed

section \<open>Evaluation on the example inputs\<close>

lemma sqrt_square: "0 \<le> a \<Longrightarrow> sqrt (a * a) = a"
  by simp

lemma sqrt_values:
  "sqrt 100 = 10" "sqrt 400 = 20" "sqrt 2500 = 50" "sqrt 10000 = 100" "sqrt 225 = 15"
  "sqrt (225 / 4) = 15 / 2" "sqrt (576 / 25) = 24 / 5" "sqrt (20736 / 25) = 144 / 5"
  by (rule real_sqrt_unique; simp add: power2_eq_square)+

lemma concat_map_Nil: "concat (map (\<lambda>x. []) xs) = []"
  by (induction xs) simp_all

lemma quiet_shape: "shape (quiet_image sh lines) = sh"
  by (simp add: quiet_image_def)

lemma quiet_ffmpeg: "extract_ffmpeg_vectors p (quiet_image sh lines) = Inr []"
  by (simp add: extract_ffmpeg_vectors_def quiet_image_def no_green_def empty_mask_def
        green_ranges_def enumerate_eq_zip upt_rec)

lemma quiet_flow: "extract_optical_flow_vectors p (quiet_image sh lines) = Inr []"
  by (simp add: extract_optical_flow_vectors_def quiet_image_def still_flow_def
        flow_sample_def split_beta concat_map_Nil)

lemma quiet_edge:
  "extract_edge_vectors p (quiet_image sh lines) =
     Inr (case lines of None \<Rightarrow> [] | Some ls \<Rightarrow> concat (map (edge_line p) ls))"
  by (simp add: extract_edge_vectors_def quiet_image_def split: option.splits)

lemma quiet_all:
  "extract_all p (quiet_image sh lines) =
     Inr (case lines of None \<Rightarrow> [] | Some ls \<Rightarrow> concat (map (edge_line p) ls))"
  by (simp add: extract_all_def quiet_ffmpeg quiet_flow quiet_edge)

lemma center_dist_less_15:
  "center_dist a b < 15 \<longleftrightarrow>
     (fst (center a) - fst (center b))\<^sup>2 + (snd (center a) - snd (center b))\<^sup>2 < 225"
proof -
  let ?n = "(fst (center a) - fst (center b))\<^sup>2 + (snd (center a) - snd (center b))\<^sup>2"
  have "sqrt 225 = 15" using sqrt_square [of 15] by simp
  then have "sqrt (real_of_int ?n) < 15 \<longleftrightarrow> real_of_int ?n < 225"
    using real_sqrt_less_iff [of "real_of_int ?n" 225] by (simp only:)
  also have "\<dots> \<longleftrightarrow> ?n < 225"
    by (rule of_int_less_numeral_iff)
  finally show ?thesis unfolding center_dist_def .
qed

lemma boundary_lines:
  "edge_line (params (init False)) (x, 0, x, 20) = [edge_at x]"
  by (simp add: edge_line_def constrain_def vector_length_def init_def sqrt_values
        arctan2_def edge_at_def)

lemma boundary_final:
  "final_vectors (params (init False)) 1 [edge_at 0, edge_at 15] = [edge_at 0, edge_at 15]"
  apply (simp add: final_vectors_def scale_back_vectors_def scored_vectors_def
        filtered_vectors_def init_def edge_at_def is_duplicate_def center_dist_less_15)
  done

lemma boundary_extract:
  "extract_motion_vectors_from_frame (init False) boundary_world ''a.png''
     = Inr (frame_result ''a.png'' 100 100 [edge_at 0, edge_at 15])"
  by (simp add: extract_motion_vectors_from_frame_def boundary_world_def small_frame_def
        resize_frame_def quiet_shape quiet_all boundary_lines boundary_final)

lemma boundary_frames: "find_motion_vector_frames boundary_world = [''a.png'', ''b.png'']"
  by (simp add: find_motion_vector_frames_def boundary_world_def)

lemma wide_line: "edge_line (params (init False)) (100, 100, 200, 100) = [clamped_edge]"
  by (simp add: edge_line_def constrain_def vector_length_def init_def sqrt_values
        arctan2_def clamped_edge_def)

lemma wide_scaled: "scale_back_vectors 2 [clamped_edge] = [mapped_edge]"
  by (simp add: scale_back_vectors_def scale_vector_def clamped_edge_def mapped_edge_def py_int_def)

lemma wide_final: "final_vectors (params (init False)) 2 [clamped_edge] = [mapped_edge]"
  by (simp add: final_vectors_def wide_scaled)
     (simp add: scored_vectors_def filtered_vectors_def init_def mapped_edge_def is_duplicate_def)

lemma wide_resize: "resize_frame wide_frame = Inr (quiet_image (600, 600) (Some [(100, 100, 200, 100)]), 2)"
  by (simp add: resize_frame_def wide_frame_def quiet_shape py_int_def)

lemma wide_extract:
  "extract_motion_vectors_from_frame (init False) wide_world ''wide.png''
     = Inr (frame_result ''wide.png'' 1200 1200 [mapped_edge])"
  by (simp add: extract_motion_vectors_from_frame_def wide_world_def wide_resize quiet_all
        wide_line wide_final)
     (simp add: wide_frame_def quiet_shape)

lemma mapped_edge_norm: "direction_norm mapped_edge = 144 / 5"
  by (simp add: direction_norm_def mapped_edge_def power2_eq_square sqrt_values)

lemma green_ffmpeg:
  "extract_ffmpeg_vectors (params (init False)) green_image = Inr [arrow (9 / 10), arrow (4 / 5)]"
  by (simp add: extract_ffmpeg_vectors_def green_image_def green_ranges_def enumerate_eq_zip
        upt_rec empty_mask_def blob_def ffmpeg_contour_def init_def py_int_def radians_def
        constrain_def vector_length_def sqrt_values arrow_def Let_def)

lemma green_all:
  "extract_all (params (init False)) green_image = Inr [arrow (9 / 10), arrow (4 / 5), short_edge]"
  apply (simp add: extract_all_def green_ffmpeg)
  apply (simp add: extract_optical_flow_vectors_def extract_edge_vectors_def green_image_def
        still_flow_def flow_sample_def split_beta concat_map_Nil
        edge_line_def constrain_def vector_length_def init_def sqrt_values
        arctan2_def short_edge_def Let_def)
  done

lemma green_final_lo:
  "final_vectors (params (init False)) 1 [arrow (9 / 10), arrow (4 / 5), short_edge] = [arrow (9 / 10)]"
  by (simp add: final_vectors_def scale_back_vectors_def scored_vectors_def
        filtered_vectors_def init_def arrow_def short_edge_def is_duplicate_def center_dist_less_15)

lemma green_final_hi:
  "final_vectors (params strict_extractor) 1 [arrow (9 / 10), arrow (4 / 5), short_edge] = [short_edge]"
  by (simp add: final_vectors_def scale_back_vectors_def scored_vectors_def strict_extractor_def
        filtered_vectors_def init_def arrow_def short_edge_def is_duplicate_def center_dist_less_15)

lemma green_scored:
  "scored_vectors (params (init False)) (scale_back_vectors 1 [arrow (9 / 10), arrow (4 / 5), short_edge])
     = [(0.315, arrow (9 / 10)), (0.3, short_edge), (0.28, arrow (4 / 5))]"
  by (simp add: scale_back_vectors_def scored_vectors_def
        filtered_vectors_def init_def arrow_def short_edge_def)

lemma green_shape: "shape green_image = (100, 100)"
  by (simp add: green_image_def)

lemma green_extract_lo:
  "extract_motion_vectors_from_frame (init False) green_world ''green.png''
     = Inr (frame_result ''green.png'' 100 100 [arrow (9 / 10)])"
  by (simp add: extract_motion_vectors_from_frame_def green_world_def resize_frame_def
        green_shape green_all green_final_lo)

lemma strict_params:
  "params strict_extractor = (params (init False))\<lparr>quality_threshold := 0.4\<rparr>"
  by (simp add: strict_extractor_def)

lemma green_extract_hi:
  "extract_motion_vectors_from_frame strict_extractor green_world ''green.png''
     = Inr (frame_result ''green.png'' 100 100 [short_edge])"
proof -
  have "extract_all (params strict_extractor) green_image = extract_all (params (init False)) green_image"
    using extract_all_thresholds [where p = "params (init False)" and q = "0.4"
        and c = "confidence_threshold (params (init False))" and fr = green_image]
    by (simp add: strict_params)
  then show ?thesis
    by (simp add: extract_motion_vectors_from_frame_def green_world_def resize_frame_def
        green_shape green_all green_final_hi)
qed

section \<open>Exceptions do not depend on the parameters\<close>

lemma ffmpeg_contour_raises:
  "isl (ffmpeg_contour p i c) = isl (ffmpeg_contour p' i c)"
  by (simp add: ffmpeg_contour_def Let_def split_beta split: sum.splits)

lemma ffmpeg_contours_raises:
  "isl (ffmpeg_contours p i cs acc) = isl (ffmpeg_contours p' i cs acc')"
proof (induction cs arbitrary: acc acc')
  case Nil
  then show ?case by simp
next
  case (Cons c cs)
  show ?case
    using ffmpeg_contour_raises [of p i c p'] Cons.IH
    by (cases "ffmpeg_contour p i c"; cases "ffmpeg_contour p' i c") simp_all
qed

lemma ffmpeg_ranges_raises:
  "isl (ffmpeg_ranges p hsv rs acc) = isl (ffmpeg_ranges p' hsv rs acc')"
proof (induction rs arbitrary: acc acc')
  case Nil
  then show ?case by simp
next
  case (Cons r rs)
  obtain i lower upper where r: "r = (i, lower, upper)" by (cases r)
  show ?case
  proof (cases "inRange hsv lower upper")
    case (Inl e)
    then show ?thesis by (simp add: r)
  next
    case (Inr green_mask)
    show ?thesis
    proof (cases "countNonZero green_mask > 0")
      case False
      with Inr Cons.IH show ?thesis by (simp add: r)
    next
      case True
      show ?thesis
      proof (cases "findContours green_mask")
        case (Inl e)
        with \<open>inRange hsv lower upper = Inr green_mask\<close> True show ?thesis by (simp add: r)
      next
        case cs: (Inr contours)
        show ?thesis
          using ffmpeg_contours_raises [of p i contours acc p' acc'] Cons.IH
            \<open>inRange hsv lower upper = Inr green_mask\<close> True cs
          by (cases "ffmpeg_contours p i contours acc"; cases "ffmpeg_contours p' i contours acc'")
             (simp_all add: r)
      qed
    qed
  qed
qed

lemma extract_all_raises: "isl (extract_all p fr) = isl (extract_all p' fr)"
proof -
  have f: "isl (extract_ffmpeg_vectors p fr) = isl (extract_ffmpeg_vectors p' fr)"
    using ffmpeg_ranges_raises [of p _ _ "[]" p' "[]"]
    by (simp add: extract_ffmpeg_vectors_def split: sum.splits)
  have o: "isl (extract_optical_flow_vectors p fr) = isl (extract_optical_flow_vectors p' fr)"
    by (simp add: extract_optical_flow_vectors_def split_beta split: sum.splits)
  have e: "isl (extract_edge_vectors p fr) = isl (extract_edge_vectors p' fr)"
    by (simp add: extract_edge_vectors_def split: sum.splits option.splits)
  show ?thesis
    using f o e
    by (cases "extract_ffmpeg_vectors p fr"; cases "extract_ffmpeg_vectors p' fr";
        cases "extract_optical_flow_vectors p fr"; cases "extract_optical_flow_vectors p' fr";
        cases "extract_edge_vectors p fr"; cases "extract_edge_vectors p' fr")
       (simp_all add: extract_all_def)
qed

lemma extract_frame_raises:
  "isl (extract_motion_vectors_from_frame (self\<lparr>params := p\<rparr>) wd path)
     = isl (extract_motion_vectors_from_frame self wd path)"
proof (cases "imread wd path")
  case None
  then show ?thesis by (simp add: extract_motion_vectors_from_frame_def)
next
  case (Some fr)
  show ?thesis
  proof (cases "resize_frame fr")
    case (Inl e)
    with Some show ?thesis by (simp add: extract_motion_vectors_from_frame_def split_beta)
  next
    case (Inr pr)
    obtain frame_resized scale_back where pr: "pr = (frame_resized, scale_back)" by (cases pr)
    show ?thesis
      using extract_all_raises [of p frame_resized "params self"] Some Inr
      by (cases "extract_all p frame_resized"; cases "extract_all (params self) frame_resized")
         (simp_all add: extract_motion_vectors_from_frame_def split_beta pr)
  qed
qed

section \<open>More evaluation on the example inputs\<close>

lemma vertical_line:
  assumes "max_vector_length p = 18" and "edge_scale p = 1 / 2"
  shows "edge_line p (x, 0, x, 20) = (if min_vector_length p \<le> 10 then [edge_at x] else [])"
  unfolding edge_line_def constrain_def vector_length_def Let_def assms
  by (simp add: sqrt_values arctan2_def edge_at_def)

lemma small_frame_extract:
  assumes "imread wd path = Some (small_frame lines)"
  shows "extract_motion_vectors_from_frame self wd path =
     Inr (frame_result path 100 100
       (final_vectors (params self) 1
          (case lines of None \<Rightarrow> [] | Some ls \<Rightarrow> concat (map (edge_line (params self)) ls))))"
  using assms
  by (simp add: extract_motion_vectors_from_frame_def small_frame_def resize_frame_def
        quiet_shape quiet_all)

lemma boundary_imread:
  "imread boundary_world ''a.png'' = Some (small_frame (Some [(0, 0, 0, 20), (15, 0, 15, 20)]))"
  "imread boundary_world ''b.png'' = None"
  by (simp_all add: boundary_world_def)

lemma capped_extract:
  "extract_motion_vectors_from_frame capped_extractor boundary_world ''a.png''
     = Inr (frame_result ''a.png'' 100 100 [edge_at 0])"
  by (simp add: small_frame_extract [OF boundary_imread(1)] vertical_line)
     (simp add: capped_extractor_def init_def vertical_line final_vectors_def
        scale_back_vectors_def scored_vectors_def filtered_vectors_def edge_at_def
        is_duplicate_def center_dist_less_15)

lemma unchecked_extract:
  "extract_motion_vectors_from_frame unchecked_extractor boundary_world ''a.png''
     = Inr (frame_result ''a.png'' 100 100 [])"
  by (simp add: small_frame_extract [OF boundary_imread(1)] vertical_line)
     (simp add: unchecked_extractor_def init_def vertical_line final_vectors_def
        scale_back_vectors_def scored_vectors_def filtered_vectors_def)

lemma unloadable_extract:
  "imread wd path = None \<Longrightarrow> extract_motion_vectors_from_frame self wd path = Inr load_error"
  by (simp add: extract_motion_vectors_from_frame_def)

lemma unchecked_batch:
  "process_all_frames unchecked_extractor boundary_world
     = Inr [frame_result ''a.png'' 100 100 [], load_error]"
  by (simp add: process_all_frames_def boundary_frames unchecked_extract
        unloadable_extract [OF boundary_imread(2)] print_frame_def)

lemma raising_extract:
  "extract_motion_vectors_from_frame (init False) raising_world ''a.png'' = Inl CvError"
  by (simp add: extract_motion_vectors_from_frame_def raising_world_def resize_frame_def
        raising_image_def extract_all_def extract_ffmpeg_vectors_def no_green_def empty_mask_def
        green_ranges_def enumerate_eq_zip upt_rec extract_optical_flow_vectors_def
        still_flow_def flow_sample_def split_beta concat_map_Nil extract_edge_vectors_def)

lemma raising_frames: "find_motion_vector_frames raising_world = [''a.png'']"
  by (simp add: find_motion_vector_frames_def raising_world_def)

lemma raising_batch: "process_all_frames (init False) raising_world = Inl CvError"
  by (simp add: process_all_frames_def raising_frames raising_extract)

lemma boundary_distance: "center_dist (edge_at 0) (edge_at 15) = 15"
  by (simp add: center_dist_def edge_at_def sqrt_values)

lemma quiet_imread:
  "imread quiet_world ''still.png'' = Some (small_frame None)"
  "imread quiet_world ''missing.png'' = None"
  by (simp_all add: quiet_world_def)

lemma quiet_extract:
  "extract_motion_vectors_from_frame (init False) quiet_world ''still.png''
     = Inr (frame_result ''still.png'' 100 100 [])"
  by (simp add: small_frame_extract [OF quiet_imread(1)] final_vectors_def
        scale_back_vectors_def scored_vectors_def filtered_vectors_def)

lemma wide_imread: "imread wide_world ''wide.png'' = Some wide_frame"
  by (simp add: wide_world_def)

lemma wide_all:
  "extract_all (params (init False)) (quiet_image (600, 600) (Some [(100, 100, 200, 100)]))
     = Inr [clamped_edge]"
  by (simp add: quiet_all wide_line)

section \<open>The batch driver on any batch\<close>

lemma frame_loop_unloadable:
  assumes "imread wd frame_path = None"
  shows "frame_loop self wd (frame_path # rest) results
         = frame_loop self wd rest (results @ [load_error])"
  using assms by (simp add: unloadable_extract print_frame_def)

lemma frame_loop_returns:
  assumes "frame_loop self wd paths results = Inr rs"
  shows "\<forall>p\<in>set paths. \<exists>r. extract_motion_vectors_from_frame self wd p = Inr r"
  using assms
proof (induction paths arbitrary: results)
  case Nil
  then show ?case by simp
next
  case (Cons p paths)
  from Cons.prems obtain r where r: "extract_motion_vectors_from_frame self wd p = Inr r"
    by (cases "extract_motion_vectors_from_frame self wd p") simp_all
  with Cons.prems print_frame_ok [OF r]
  have "frame_loop self wd paths (results @ [r]) = Inr rs" by simp
  from Cons.IH [OF this] r show ?case by simp
qed

lemma frame_loop_raises:
  assumes "frame_loop self wd paths results = Inl e"
  shows "\<exists>p\<in>set paths. extract_motion_vectors_from_frame self wd p = Inl e"
  using assms
proof (induction paths arbitrary: results)
  case Nil
  then show ?case by simp
next
  case (Cons p paths)
  show ?case
  proof (cases "extract_motion_vectors_from_frame self wd p")
    case (Inl e')
    with Cons.prems show ?thesis by simp
  next
    case (Inr r)
    with Cons.prems print_frame_ok [OF Inr]
    have "frame_loop self wd paths (results @ [r]) = Inl e" by simp
    from Cons.IH [OF this] show ?thesis by simp
  qed
qed

lemma statistics_of_loop_results:
  assumes "frame_loop self wd paths [] = Inr rs"
  shows "overall_statistics (filter (\<lambda>r. r ''error'' = None) rs) = Inr ()"
proof (rule overall_statistics_ok, rule ballI)
  fix r assume "r \<in> set (filter (\<lambda>r. r ''error'' = None) rs)"
  moreover have "rs = map (\<lambda>p. projr (extract_motion_vectors_from_frame self wd p)) paths"
    using frame_loop_results [OF frame_loop_returns [OF assms], of "[]"] assms by simp
  ultimately obtain p where "p \<in> set paths"
    "r = projr (extract_motion_vectors_from_frame self wd p)" "r ''error'' = None"
    by auto
  with frame_loop_returns [OF assms]
  show "r ''error'' = None \<and> (\<exists>self wd p. extract_motion_vectors_from_frame self wd p = Inr r)"
    by (metis sum.sel(2))
qed

lemma process_all_frames_returns:
  assumes "process_all_frames self wd = Inr results"
  shows "results = map (\<lambda>p. projr (extract_motion_vectors_from_frame self wd p))
                     (find_motion_vector_frames wd)"
    and "\<forall>p\<in>set (find_motion_vector_frames wd).
           \<exists>r. extract_motion_vectors_from_frame self wd p = Inr r"
proof -
  let ?paths = "find_motion_vector_frames wd"
  have "frame_loop self wd ?paths [] = Inr results"
  proof (cases "?paths = []")
    case True
    with assms show ?thesis by (simp add: process_all_frames_def)
  next
    case False
    with assms show ?thesis
      by (auto simp: process_all_frames_def Let_def split: sum.splits)
  qed
  then show "\<forall>p\<in>set ?paths. \<exists>r. extract_motion_vectors_from_frame self wd p = Inr r"
    by (rule frame_loop_returns)
  from frame_loop_results [OF this, of "[]"] \<open>frame_loop self wd ?paths [] = Inr results\<close>
  show "results = map (\<lambda>p. projr (extract_motion_vectors_from_frame self wd p)) ?paths"
    by simp
qed

lemma process_all_frames_raises:
  assumes "process_all_frames self wd = Inl e"
  shows "\<exists>p\<in>set (find_motion_vector_frames wd).
           imread wd p \<noteq> None \<and> extract_motion_vectors_from_frame self wd p = Inl e"
proof -
  let ?paths = "find_motion_vector_frames wd"
  have "frame_loop self wd ?paths [] = Inl e"
  proof (cases "frame_loop self wd ?paths []")
    case (Inl e')
    with assms show ?thesis
      by (cases "?paths = []") (simp_all add: process_all_frames_def)
  next
    case (Inr rs)
    with assms statistics_of_loop_results [OF Inr] show ?thesis
      by (cases "?paths = []") (simp_all add: process_all_frames_def)
  qed
  from frame_loop_raises [OF this]
  obtain p where p: "p \<in> set ?paths" "extract_motion_vectors_from_frame self wd p = Inl e"
    by blast
  then have "imread wd p \<noteq> None"
    using unloadable_extract [of wd p self] by auto
  with p show ?thesis by blast
qed

lemma mixed_imread:
  "imread mixed_world ''a.png'' = None"
  "imread mixed_world ''b.png'' \<noteq> None"
  by (simp_all add: mixed_world_def)

lemma mixed_frames: "find_motion_vector_frames mixed_world = [''a.png'', ''b.png'']"
  by (simp add: find_motion_vector_frames_def mixed_world_def)

lemma mixed_extract:
  "extract_motion_vectors_from_frame (init False) mixed_world ''b.png'' = Inl CvError"
  by (simp add: extract_motion_vectors_from_frame_def mixed_world_def resize_frame_def
        raising_image_def extract_all_def extract_ffmpeg_vectors_def no_green_def empty_mask_def
        green_ranges_def enumerate_eq_zip upt_rec extract_optical_flow_vectors_def
        still_flow_def flow_sample_def split_beta concat_map_Nil extract_edge_vectors_def)

lemma mixed_batch: "process_all_frames (init False) mixed_world = Inl CvError"
  by (simp add: process_all_frames_def mixed_frames mixed_extract
        unloadable_extract [OF mixed_imread(1)] print_frame_def)

section \<open>The claims\<close>

subsection \<open>C1: length bounds of the returned vectors\<close>

text \<open>
  Without downscaling the bounds hold: the extractors clamp every vector to
  \<open>max_vector_length\<close> and drop those below \<open>min_vector_length\<close>.
\<close>

lemma unscaled_vectors_within_bounds:
  assumes "0 \<le> max_vector_length p" and "extract_all p fr = Inr vs"
    and "v \<in> set (final_vectors p 1 vs)"
  shows "min_vector_length p \<le> direction_norm v \<and> direction_norm v \<le> max_vector_length p"
proof -
  have "v \<in> set vs"
    using assms(3) final_vectors_subset [of p 1 vs] filtered_vectors_subset
    by (auto simp: scale_back_vectors_def)
  from extract_all_well_formed [OF assms(2) this] assms(1) show ?thesis
    by (auto simp: well_formed_def direction_norm_eq)
qed

text \<open>
  C1. The claim is that every vector returned for a frame has a direction whose norm
  lies between \<open>min_vector_length = 4\<close> and \<open>max_vector_length = 18\<close>, also when
  the frame was downscaled. The code clamps inside the extractors and multiplies the
  direction by \<open>scale_back * 0.8\<close> afterwards: for the frame of 1200 by 1200 pixels
  whose copy holds a horizontal segment of 100 pixels, the one vector returned has
  norm 28.8, above 18.
\<close>

theorem downscaled_vector_exceeds_max_length:
  "vectors_of (extract_motion_vectors_from_frame (init False) wide_world ''wide.png'')
     = [mapped_edge]
   \<and> direction_norm mapped_edge = 144 / 5
   \<and> max_vector_length (params (init False)) < direction_norm mapped_edge"
  by (simp add: vectors_of_def wide_extract mapped_edge_norm) (simp add: init_def)

subsection \<open>C2: lowering a threshold\<close>

text \<open>
  C2, as stated, fails: with the quality threshold at 0.4 the frame with the green
  blob yields the edge vector; at the configured 0.3 the blob's vector passes the
  filter, scores higher (0.315 against 0.3) and suppresses the edge vector, two pixels
  away. The result under the lower threshold does not contain the vector accepted
  under the higher one.
\<close>

theorem lower_threshold_drops_accepted_vector:
  "params strict_extractor = (params (init False))\<lparr>quality_threshold := 2 / 5\<rparr>
   \<and> quality_threshold (params (init False)) < 2 / 5
   \<and> vectors_of (extract_motion_vectors_from_frame strict_extractor green_world ''green.png'')
       = [short_edge]
   \<and> vectors_of (extract_motion_vectors_from_frame (init False) green_world ''green.png'')
       = [arrow (9 / 10)]
   \<and> short_edge \<notin> set [arrow (9 / 10)]"
  by (simp add: vectors_of_def green_extract_hi green_extract_lo)
     (simp add: strict_extractor_def init_def short_edge_def arrow_def)

text \<open>
  C2, amended: when two extractors differ only in \<open>quality_threshold\<close> and
  \<open>confidence_threshold\<close>, and neither is higher in the second, a vector accepted by
  the first is, in the second's result for the same frame, accepted again, or closer
  than 15 pixels to an accepted vector, or left out of a result that has reached
  \<open>max_vectors_per_frame\<close>.
\<close>

theorem lower_threshold_keeps_or_suppresses:
  assumes "params lo = (params hi)\<lparr>quality_threshold := q, confidence_threshold := c\<rparr>"
    and "q \<le> quality_threshold (params hi)" and "c \<le> confidence_threshold (params hi)"
    and "extract_motion_vectors_from_frame hi wd frame_path = Inr r_hi"
    and "r_hi ''vectors'' = Some (VVectors vs_hi)"
    and "v \<in> set vs_hi"
  shows "\<exists>r_lo vs_lo. extract_motion_vectors_from_frame lo wd frame_path = Inr r_lo
           \<and> r_lo ''vectors'' = Some (VVectors vs_lo)
           \<and> (v \<in> set vs_lo
              \<or> (\<exists>e\<in>set vs_lo. center_dist v e < 15)
              \<or> int (length vs_lo) \<ge> max_vectors_per_frame (params lo))"
  using assms(4,5)
proof (cases rule: extract_frame_vectors)
  case unloadable
  with assms(6) show ?thesis by simp
next
  case (loaded fr frame_resized scale_back all_vectors)
  let ?scaled = "scale_back_vectors scale_back all_vectors"
  let ?lo = "final_vectors (params lo) scale_back all_vectors"
  have "extract_all (params lo) frame_resized = Inr all_vectors"
    using loaded(3) by (simp add: assms(1) extract_all_thresholds)
  with loaded(1,2)
  have res: "extract_motion_vectors_from_frame lo wd frame_path =
      Inr (frame_result frame_path (snd (shape (buffer fr))) (fst (shape (buffer fr))) ?lo)"
    by (simp add: extract_motion_vectors_from_frame_def split_beta)
  have "v \<in> set (filtered_vectors (params hi) ?scaled)"
    using assms(6) final_vectors_subset unfolding loaded(4) by blast
  then have "v \<in> set (filtered_vectors (params lo) ?scaled)"
    using filtered_vectors_thresholds [OF assms(2,3)] unfolding assms(1) by blast
  then have "v \<in> snd ` set (scored_vectors (params lo) ?scaled)"
    by (simp add: scored_vectors_set)
  from remove_duplicates_covers [OF this, of "params lo" "[]"]
  have "v \<in> set ?lo \<or> (\<exists>e\<in>set ?lo. center_dist v e < 15)
      \<or> int (length ?lo) \<ge> max_vectors_per_frame (params lo)"
    by (simp add: final_vectors_def)
  with res show ?thesis by simp
qed

theorem lower_threshold_keeps_or_suppresses_witness:
  "params (init False)
     = (params strict_extractor)\<lparr>quality_threshold := 3 / 10, confidence_threshold := 2 / 5\<rparr>
   \<and> 3 / 10 \<le> quality_threshold (params strict_extractor)
   \<and> 2 / 5 \<le> confidence_threshold (params strict_extractor)
   \<and> extract_motion_vectors_from_frame strict_extractor green_world ''green.png''
       = Inr (frame_result ''green.png'' 100 100 [short_edge])
   \<and> frame_result ''green.png'' 100 100 [short_edge] ''vectors'' = Some (VVectors [short_edge])
   \<and> short_edge \<in> set [short_edge]
   \<and> (\<exists>r_lo vs_lo.
         extract_motion_vectors_from_frame (init False) green_world ''green.png'' = Inr r_lo
       \<and> r_lo ''vectors'' = Some (VVectors vs_lo)
       \<and> (short_edge \<in> set vs_lo
          \<or> (\<exists>e\<in>set vs_lo. center_dist short_edge e < 15)
          \<or> int (length vs_lo) \<ge> max_vectors_per_frame (params (init False))))"
proof -
  have h1: "params (init False)
      = (params strict_extractor)\<lparr>quality_threshold := 3 / 10, confidence_threshold := 2 / 5\<rparr>"
    by (simp add: strict_extractor_def init_def)
  have h2: "3 / 10 \<le> quality_threshold (params strict_extractor)"
    and h3: "2 / 5 \<le> confidence_threshold (params strict_extractor)"
    by (simp_all add: strict_extractor_def init_def)
  note h4 = green_extract_hi
  have h5: "frame_result ''green.png'' 100 100 [short_edge] ''vectors''
      = Some (VVectors [short_edge])"
    by simp
  have h6: "short_edge \<in> set [short_edge]" by simp
  note c = lower_threshold_keeps_or_suppresses [OF h1 h2 h3 h4 h5 h6]
  show ?thesis by (intro conjI) (rule h1 h2 h3 h4 h5 h6 c)+
qed

subsection \<open>C3: distance between accepted centers\<close>

text \<open>
  C3, as stated, fails: a candidate is a duplicate when its distance to an accepted
  center is below 15, so two centers exactly 15 pixels apart are both accepted.
\<close>

theorem accepted_pair_at_exactly_15:
  "vectors_of (extract_motion_vectors_from_frame (init False) boundary_world ''a.png'')
     = [edge_at 0, edge_at 15]
   \<and> \<not> 15 < center_dist (edge_at 0) (edge_at 15)"
  by (simp add: vectors_of_def boundary_extract boundary_distance)

text \<open>
  C3, amended: any two vectors at distinct positions of the returned list have centers
  at least 15 pixels apart.
\<close>

theorem accepted_centers_at_least_15_apart:
  assumes "extract_motion_vectors_from_frame self wd frame_path = Inr r"
    and "r ''vectors'' = Some (VVectors vs)"
    and "i < j" and "j < length vs"
  shows "15 \<le> center_dist (vs ! i) (vs ! j)"
  using assms(1,2)
proof (cases rule: extract_frame_vectors)
  case unloadable
  with assms(4) show ?thesis by simp
next
  case (loaded fr frame_resized scale_back all_vectors)
  have "sorted_wrt (\<lambda>a b. 15 \<le> center_dist a b) vs"
    unfolding loaded(4) final_vectors_def by (rule remove_duplicates_far) simp
  with assms(3,4) show ?thesis by (simp add: sorted_wrt_iff_nth_less)
qed

theorem accepted_centers_at_least_15_apart_witness:
  "extract_motion_vectors_from_frame (init False) boundary_world ''a.png''
     = Inr (frame_result ''a.png'' 100 100 [edge_at 0, edge_at 15])
   \<and> frame_result ''a.png'' 100 100 [edge_at 0, edge_at 15] ''vectors''
       = Some (VVectors [edge_at 0, edge_at 15])
   \<and> (0::nat) < 1 \<and> 1 < length [edge_at 0, edge_at 15]
   \<and> 15 \<le> center_dist ([edge_at 0, edge_at 15] ! 0) ([edge_at 0, edge_at 15] ! 1)"
proof -
  note h1 = boundary_extract
  have h2: "frame_result ''a.png'' 100 100 [edge_at 0, edge_at 15] ''vectors''
      = Some (VVectors [edge_at 0, edge_at 15])"
    by simp
  have h3: "(0::nat) < 1" and h4: "1 < length [edge_at 0, edge_at 15]" by simp_all
  note c = accepted_centers_at_least_15_apart [OF h1 h2 h3 h4]
  show ?thesis by (intro conjI) (rule h1 h2 h3 h4 c)+
qed

subsection \<open>C4: an exception in one extractor\<close>

text \<open>
  The optical-flow extractor catches what its flow computation raises and returns no
  vector.
\<close>

lemma flow_failure_is_caught:
  assumes "cvtColor_GRAY fr = Inr gray" and "calcOpticalFlowFarneback gray = Inl e"
  shows "extract_optical_flow_vectors p fr = Inr []"
  using assms by (simp add: extract_optical_flow_vectors_def)

text \<open>
  C4. The claim is that an exception raised in any of the three extractors is caught
  there and counts as no detection. The edge-line extractor (like the arrow extractor)
  has no handler: when its line detection raises, the exception leaves
  \<open>extract_motion_vectors_from_frame\<close> and \<open>process_all_frames\<close>.
\<close>

theorem edge_exception_aborts_frame_and_batch:
  "extract_edge_vectors (params (init False)) raising_image = Inl CvError
   \<and> extract_motion_vectors_from_frame (init False) raising_world ''a.png'' = Inl CvError
   \<and> process_all_frames (init False) raising_world = Inl CvError"
  by (simp add: raising_extract raising_batch)
     (simp add: extract_edge_vectors_def raising_image_def)

subsection \<open>C5: a frame that cannot be loaded\<close>

text \<open>
  C5. A frame that cannot be loaded yields a dictionary with an empty \<open>vectors\<close> list
  and the \<open>error\<close> entry; the frame loop appends it to the results and goes on with
  the next path, whatever the other frames are. Whenever \<open>process_all_frames\<close>
  returns, it returns one result per frame path, in the order of the paths, each the
  result of the extraction on that path; whenever it raises, the exception is that of
  the extraction on another frame, one that was loaded.
\<close>

theorem unloadable_frame_yields_error_and_batch_continues:
  assumes "imread wd frame_path = None"
  shows "(\<exists>r. extract_motion_vectors_from_frame self wd frame_path = Inr r
            \<and> r ''vectors'' = Some (VVectors [])
            \<and> r ''error'' = Some (VStr ''Could not load frame'')
            \<and> (\<forall>rest results.
                  frame_loop self wd (frame_path # rest) results
                    = frame_loop self wd rest (results @ [r])))
       \<and> (\<forall>results. process_all_frames self wd = Inr results \<longrightarrow>
             length results = length (find_motion_vector_frames wd)
           \<and> (\<forall>i<length results.
                 extract_motion_vectors_from_frame self wd (find_motion_vector_frames wd ! i)
                   = Inr (results ! i)))
       \<and> (\<forall>e. process_all_frames self wd = Inl e \<longrightarrow>
             (\<exists>p\<in>set (find_motion_vector_frames wd).
                 p \<noteq> frame_path \<and> imread wd p \<noteq> None
               \<and> extract_motion_vectors_from_frame self wd p = Inl e))"
proof (intro conjI allI impI)
  show "\<exists>r. extract_motion_vectors_from_frame self wd frame_path = Inr r
      \<and> r ''vectors'' = Some (VVectors [])
      \<and> r ''error'' = Some (VStr ''Could not load frame'')
      \<and> (\<forall>rest results.
            frame_loop self wd (frame_path # rest) results
              = frame_loop self wd rest (results @ [r]))"
    using unloadable_extract [OF assms] frame_loop_unloadable [OF assms]
    by (intro exI [of _ load_error]) simp
next
  fix results
  assume ret: "process_all_frames self wd = Inr results"
  from process_all_frames_returns(1) [OF ret]
  show "length results = length (find_motion_vector_frames wd)" by simp
next
  fix results i
  assume ret: "process_all_frames self wd = Inr results" and i: "i < length results"
  let ?paths = "find_motion_vector_frames wd"
  note eq = process_all_frames_returns(1) [OF ret]
  from i eq have "i < length ?paths" by simp
  moreover from this process_all_frames_returns(2) [OF ret]
  obtain r where "extract_motion_vectors_from_frame self wd (?paths ! i) = Inr r"
    by (meson nth_mem)
  ultimately show "extract_motion_vectors_from_frame self wd (?paths ! i) = Inr (results ! i)"
    by (simp add: eq)
next
  fix e
  assume "process_all_frames self wd = Inl e"
  from process_all_frames_raises [OF this]
  obtain p where p: "p \<in> set (find_motion_vector_frames wd)" "imread wd p \<noteq> None"
    "extract_motion_vectors_from_frame self wd p = Inl e"
    by blast
  with assms have "p \<noteq> frame_path" by auto
  with p show "\<exists>p\<in>set (find_motion_vector_frames wd).
      p \<noteq> frame_path \<and> imread wd p \<noteq> None
      \<and> extract_motion_vectors_from_frame self wd p = Inl e"
    by blast
qed

theorem unloadable_frame_yields_error_and_batch_continues_witness:
  "imread mixed_world ''a.png'' = None
   \<and> find_motion_vector_frames mixed_world = [''a.png'', ''b.png'']
   \<and> extract_motion_vectors_from_frame (init False) mixed_world ''a.png'' = Inr load_error
   \<and> frame_loop (init False) mixed_world [''a.png'', ''b.png''] []
       = frame_loop (init False) mixed_world [''b.png''] [load_error]
   \<and> extract_motion_vectors_from_frame (init False) mixed_world ''b.png'' = Inl CvError
   \<and> process_all_frames (init False) mixed_world = Inl CvError
   \<and> imread boundary_world ''b.png'' = None
   \<and> find_motion_vector_frames boundary_world = [''a.png'', ''b.png'']
   \<and> process_all_frames (init False) boundary_world
       = Inr [frame_result ''a.png'' 100 100 [edge_at 0, edge_at 15], load_error]"
proof -
  note mixed = unloadable_frame_yields_error_and_batch_continues
      [OF mixed_imread(1), of "init False"]
  note boundary = unloadable_frame_yields_error_and_batch_continues
      [OF boundary_imread(2), of "init False"]
  have m1: "extract_motion_vectors_from_frame (init False) mixed_world ''a.png'' = Inr load_error"
    by (rule unloadable_extract [OF mixed_imread(1)])
  from mixed [THEN conjunct1] m1
  have m2: "frame_loop (init False) mixed_world [''a.png'', ''b.png''] []
      = frame_loop (init False) mixed_world [''b.png''] [load_error]"
    by auto
  have returns: "\<exists>results. process_all_frames (init False) boundary_world = Inr results"
  proof (cases "process_all_frames (init False) boundary_world")
    case (Inl e)
    with boundary [THEN conjunct2, THEN conjunct2] boundary_frames boundary_extract
    show ?thesis by auto
  next
    case (Inr results)
    then show ?thesis by blast
  qed
  then obtain results where p: "process_all_frames (init False) boundary_world = Inr results"
    by blast
  with boundary [THEN conjunct2, THEN conjunct1]
  have l: "length results = length (find_motion_vector_frames boundary_world)"
    and n: "\<And>i. i < length results \<Longrightarrow>
          extract_motion_vectors_from_frame (init False) boundary_world
              (find_motion_vector_frames boundary_world ! i)
            = Inr (results ! i)"
    by blast+
  have l2: "length results = 2" using l by (simp add: boundary_frames)
  have r0: "results ! 0 = frame_result ''a.png'' 100 100 [edge_at 0, edge_at 15]"
    using n [of 0] l2 by (simp add: boundary_frames boundary_extract)
  have r1: "results ! 1 = load_error"
    using n [of 1] l2 by (simp add: boundary_frames unloadable_extract [OF boundary_imread(2)])
  have "results = [frame_result ''a.png'' 100 100 [edge_at 0, edge_at 15], load_error]"
    using l2 r0 r1 by (auto simp: list_eq_iff_nth_eq less_Suc_eq numeral_2_eq_2)
  with p have b: "process_all_frames (init False) boundary_world
      = Inr [frame_result ''a.png'' 100 100 [edge_at 0, edge_at 15], load_error]"
    by simp
  show ?thesis
    by (intro conjI)
       (rule mixed_imread(1) mixed_frames m1 m2 mixed_extract mixed_batch
          boundary_imread(2) boundary_frames b)+
qed

subsection \<open>C6: validation of the configuration\<close>

text \<open>
  C6, as stated, fails: nothing checks the parameters. An extractor whose
  \<open>min_vector_length\<close> was set to 20, above \<open>max_vector_length = 18\<close>, processes
  the whole batch and returns its results.
\<close>

theorem invalid_configuration_is_processed:
  "max_vector_length (params unchecked_extractor) < min_vector_length (params unchecked_extractor)
   \<and> process_all_frames unchecked_extractor boundary_world
       = Inr [frame_result ''a.png'' 100 100 [], load_error]"
  by (simp add: unchecked_batch) (simp add: unchecked_extractor_def init_def)

text \<open>
  C6, amended: the constructor takes no configuration and installs fixed parameters,
  with \<open>min_vector_length = 4\<close> below \<open>max_vector_length = 18\<close>; whatever the
  \<open>params\<close> dictionary is changed to afterwards, the extraction on a frame raises
  exactly when it raises with the original parameters, so no parameter value is ever
  rejected.
\<close>

theorem init_installs_fixed_parameters_unchecked:
  "params (init gpu_available) =
     \<lparr>max_vector_length = 18, optimal_length = 12, min_vector_length = 4,
      ffmpeg_scale = 0.4, flow_scale = 0.25, edge_scale = 0.5,
      quality_threshold = 0.3, confidence_threshold = 0.4, max_vectors_per_frame = 50\<rparr>
   \<and> min_vector_length (params (init gpu_available)) \<le> max_vector_length (params (init gpu_available))
   \<and> isl (extract_motion_vectors_from_frame (self\<lparr>params := p\<rparr>) wd frame_path)
       = isl (extract_motion_vectors_from_frame self wd frame_path)"
  using extract_frame_raises [where self = self and p = p and wd = wd and path = frame_path]
  by (simp add: init_def)

subsection \<open>C7: the cap on the number of vectors\<close>

text \<open>
  C7. With \<open>max_vectors_per_frame\<close> at least 1 (it is 50), the returned list has at most
  \<open>max_vectors_per_frame\<close> vectors.
\<close>

theorem at_most_max_vectors_per_frame:
  assumes "1 \<le> max_vectors_per_frame (params self)"
    and "extract_motion_vectors_from_frame self wd frame_path = Inr r"
    and "r ''vectors'' = Some (VVectors vs)"
  shows "int (length vs) \<le> max_vectors_per_frame (params self)"
  using assms(2,3)
proof (cases rule: extract_frame_vectors)
  case unloadable
  with assms(1) show ?thesis by simp
next
  case (loaded fr frame_resized scale_back all_vectors)
  show ?thesis
    unfolding loaded(4) final_vectors_def
    by (rule remove_duplicates_length) (use assms(1) in simp)
qed

theorem at_most_max_vectors_per_frame_witness:
  "1 \<le> max_vectors_per_frame (params capped_extractor)
   \<and> extract_motion_vectors_from_frame capped_extractor boundary_world ''a.png''
       = Inr (frame_result ''a.png'' 100 100 [edge_at 0])
   \<and> frame_result ''a.png'' 100 100 [edge_at 0] ''vectors'' = Some (VVectors [edge_at 0])
   \<and> int (length [edge_at 0]) \<le> max_vectors_per_frame (params capped_extractor)"
proof -
  have h1: "1 \<le> max_vectors_per_frame (params capped_extractor)"
    by (simp add: capped_extractor_def)
  note h2 = capped_extract
  have h3: "frame_result ''a.png'' 100 100 [edge_at 0] ''vectors'' = Some (VVectors [edge_at 0])"
    by simp
  note c = at_most_max_vectors_per_frame [OF h1 h2 h3]
  show ?thesis by (intro conjI) (rule h1 h2 h3 c)+
qed

subsection \<open>C8: the order of the candidates\<close>

text \<open>
  C8. The list the greedy selection walks holds each surviving vector with its score
  \<open>quality * confidence\<close>, in descending order of score; of two entries with equal
  scores the one whose method has the higher priority comes first.
\<close>

theorem scored_by_score_then_method_priority:
  assumes "extract_all p frame_resized = Inr all_vectors"
  shows "sorted_wrt (\<lambda>a b. fst a > fst b
                        \<or> (fst a = fst b \<and> priority (method' (snd a)) \<le> priority (method' (snd b))))
           (scored_vectors p (scale_back_vectors scale_back all_vectors))
       \<and> (\<forall>x\<in>set (scored_vectors p (scale_back_vectors scale_back all_vectors)).
             fst x = quality (snd x) * confidence (snd x))
       \<and> final_vectors p scale_back all_vectors =
           remove_duplicates p [] (scored_vectors p (scale_back_vectors scale_back all_vectors))"
proof -
  let ?scaled = "scale_back_vectors scale_back all_vectors"
  let ?Q = "\<lambda>a b :: real \<times> vector. priority (method' (snd a)) \<le> priority (method' (snd b))"
  have "sorted (map (\<lambda>v. priority (method' v)) ?scaled)"
    using extract_all_priority_sorted [OF assms] by (simp add: scale_back_priority)
  then have "sorted_wrt (\<lambda>a b. priority (method' a) \<le> priority (method' b)) ?scaled"
    by (simp add: sorted_wrt_map)
  then have "sorted_wrt (\<lambda>a b. priority (method' a) \<le> priority (method' b))
      (filtered_vectors p ?scaled)"
    unfolding filtered_vectors_def by (rule sorted_wrt_filter)
  then have "sorted_wrt ?Q (map (\<lambda>v. (quality v * confidence v, v)) (filtered_vectors p ?scaled))"
    by (simp add: sorted_wrt_map)
  from sort_key_keeps_order [OF this, of "\<lambda>x. - fst x"]
  have "sorted_wrt (\<lambda>a b. fst a > fst b \<or> (fst a = fst b \<and> ?Q a b)) (scored_vectors p ?scaled)"
    by (simp add: scored_vectors_def)
  moreover have "\<forall>x\<in>set (scored_vectors p ?scaled). fst x = quality (snd x) * confidence (snd x)"
    by (auto simp: scored_vectors_def)
  ultimately show ?thesis by (simp add: final_vectors_def)
qed

theorem scored_by_score_then_method_priority_witness:
  "extract_all (params (init False)) green_image = Inr [arrow (9 / 10), arrow (4 / 5), short_edge]
   \<and> sorted_wrt (\<lambda>a b. fst a > fst b
                     \<or> (fst a = fst b \<and> priority (method' (snd a)) \<le> priority (method' (snd b))))
        (scored_vectors (params (init False))
           (scale_back_vectors 1 [arrow (9 / 10), arrow (4 / 5), short_edge]))
   \<and> scored_vectors (params (init False))
        (scale_back_vectors 1 [arrow (9 / 10), arrow (4 / 5), short_edge])
      = [(63 / 200, arrow (9 / 10)), (3 / 10, short_edge), (7 / 25, arrow (4 / 5))]"
proof -
  note h = green_all
  note c = scored_by_score_then_method_priority [OF h, of 1, THEN conjunct1]
  have v: "scored_vectors (params (init False))
        (scale_back_vectors 1 [arrow (9 / 10), arrow (4 / 5), short_edge])
      = [(63 / 200, arrow (9 / 10)), (3 / 10, short_edge), (7 / 25, arrow (4 / 5))]"
    using green_scored by simp
  show ?thesis by (intro conjI) (rule h c v)+
qed

subsection \<open>C9: magnitude and direction\<close>

text \<open>
  C9. With a non-negative \<open>max_vector_length\<close>, the \<open>magnitude\<close> of every vector is
  the Euclidean norm of its \<open>direction\<close>: as created and clamped by the extractors,
  after the mapping back from a downscaled frame, and in the returned list.
\<close>

theorem magnitude_matches_direction:
  assumes "0 \<le> max_vector_length (params self)"
    and "imread wd frame_path = Some fr"
    and "resize_frame fr = Inr (frame_resized, scale_back)"
    and "extract_all (params self) frame_resized = Inr all_vectors"
  shows "(\<forall>v\<in>set all_vectors. magnitude v = direction_norm v)
       \<and> (\<forall>v\<in>set (scale_back_vectors scale_back all_vectors). magnitude v = direction_norm v)
       \<and> (\<exists>r final. extract_motion_vectors_from_frame self wd frame_path = Inr r
             \<and> r ''vectors'' = Some (VVectors final)
             \<and> (\<forall>v\<in>set final. magnitude v = direction_norm v))"
proof -
  have created: "\<forall>v\<in>set all_vectors. magnitude v = direction_norm v"
    using extract_all_consistent [OF assms(1,4)] by blast
  have "0 \<le> scale_back"
    using resize_frame_scale(1) [OF assms(3)] by linarith
  then have scaled: "\<forall>v\<in>set (scale_back_vectors scale_back all_vectors).
      magnitude v = direction_norm v"
    using scale_back_consistent [OF _ created] by blast
  let ?final = "final_vectors (params self) scale_back all_vectors"
  have res: "extract_motion_vectors_from_frame self wd frame_path =
      Inr (frame_result frame_path (snd (shape (buffer fr))) (fst (shape (buffer fr))) ?final)"
    using assms(2,3,4) by (simp add: extract_motion_vectors_from_frame_def split_beta)
  have "\<forall>v\<in>set ?final. magnitude v = direction_norm v"
    using scaled final_vectors_subset [of "params self" scale_back all_vectors]
      filtered_vectors_subset by blast
  with created scaled res show ?thesis by simp
qed

theorem magnitude_matches_direction_witness:
  "0 \<le> max_vector_length (params (init False))
   \<and> imread wide_world ''wide.png'' = Some wide_frame
   \<and> resize_frame wide_frame = Inr (quiet_image (600, 600) (Some [(100, 100, 200, 100)]), 2)
   \<and> extract_all (params (init False)) (quiet_image (600, 600) (Some [(100, 100, 200, 100)]))
       = Inr [clamped_edge]
   \<and> magnitude clamped_edge = direction_norm clamped_edge
   \<and> scale_back_vectors 2 [clamped_edge] = [mapped_edge]
   \<and> magnitude mapped_edge = direction_norm mapped_edge
   \<and> (\<exists>r final. extract_motion_vectors_from_frame (init False) wide_world ''wide.png'' = Inr r
         \<and> r ''vectors'' = Some (VVectors final)
         \<and> (\<forall>v\<in>set final. magnitude v = direction_norm v))"
proof -
  have h1: "0 \<le> max_vector_length (params (init False))" by (simp add: init_def)
  note h2 = wide_imread and h3 = wide_resize and h4 = wide_all
  note c = magnitude_matches_direction [OF h1 h2 h3 h4]
  have c1: "magnitude clamped_edge = direction_norm clamped_edge"
    using c [THEN conjunct1] by simp
  have c2: "magnitude mapped_edge = direction_norm mapped_edge"
    using c [THEN conjunct2, THEN conjunct1] by (simp add: wide_scaled)
  show ?thesis
    by (intro conjI) (rule h1 h2 h3 h4 c1 c2 wide_scaled c [THEN conjunct2, THEN conjunct2])+
qed

subsection \<open>C10: the keys of the returned dictionary\<close>

text \<open>
  C10. For a frame that cannot be loaded the returned dictionary has the keys
  \<open>vectors\<close> and \<open>error\<close> only. For a frame that loads, a returned dictionary has
  the seven keys of the success case and no \<open>error\<close>; when its list of vectors is
  empty, the count is 0, the distribution is empty and the statistics are all 0.
\<close>

theorem load_error_has_only_vectors_and_error:
  "(imread wd frame_path = None \<longrightarrow>
      (\<exists>r. extract_motion_vectors_from_frame self wd frame_path = Inr r
          \<and> dom r = {''vectors'', ''error''}))
   \<and> (imread wd frame_path \<noteq> None \<longrightarrow>
        (\<forall>r. extract_motion_vectors_from_frame self wd frame_path = Inr r \<longrightarrow>
           dom r = {''vectors'', ''frame_path'', ''frame_size'', ''total_vectors'',
                    ''method_distribution'', ''length_stats'', ''quality_stats''}
           \<and> (r ''vectors'' = Some (VVectors []) \<longrightarrow>
                r ''total_vectors'' = Some (VInt 0)
              \<and> r ''method_distribution'' = Some (VCounts [])
              \<and> r ''length_stats'' = Some (VStats \<lparr>min_stat = 0, max_stat = 0, avg = 0\<rparr>)
              \<and> r ''quality_stats'' = Some (VStats \<lparr>min_stat = 0, max_stat = 0, avg = 0\<rparr>))))"
proof (intro conjI impI allI)
  assume "imread wd frame_path = None"
  then have "extract_motion_vectors_from_frame self wd frame_path = Inr load_error"
    by (simp add: extract_motion_vectors_from_frame_def)
  then show "\<exists>r. extract_motion_vectors_from_frame self wd frame_path = Inr r
      \<and> dom r = {''vectors'', ''error''}"
    by simp
next
  fix r
  assume ld: "imread wd frame_path \<noteq> None"
    and r: "extract_motion_vectors_from_frame self wd frame_path = Inr r"
  from r ld obtain w h final where eq: "r = frame_result frame_path w h final"
    by (cases rule: extract_frame_cases) auto
  show "dom r = {''vectors'', ''frame_path'', ''frame_size'', ''total_vectors'',
                    ''method_distribution'', ''length_stats'', ''quality_stats''}"
    unfolding eq by (rule frame_result_dom)
  assume "r ''vectors'' = Some (VVectors [])"
  then have "final = []" by (simp add: eq)
  then show "r ''total_vectors'' = Some (VInt 0)"
    "r ''method_distribution'' = Some (VCounts [])"
    "r ''length_stats'' = Some (VStats \<lparr>min_stat = 0, max_stat = 0, avg = 0\<rparr>)"
    "r ''quality_stats'' = Some (VStats \<lparr>min_stat = 0, max_stat = 0, avg = 0\<rparr>)"
    by (simp_all add: eq summary_def)
qed

theorem load_error_has_only_vectors_and_error_witness:
  "imread quiet_world ''missing.png'' = None
   \<and> (\<exists>r. extract_motion_vectors_from_frame (init False) quiet_world ''missing.png'' = Inr r
         \<and> dom r = {''vectors'', ''error''})
   \<and> imread quiet_world ''still.png'' \<noteq> None
   \<and> extract_motion_vectors_from_frame (init False) quiet_world ''still.png''
       = Inr (frame_result ''still.png'' 100 100 [])
   \<and> dom (frame_result ''still.png'' 100 100 []) =
       {''vectors'', ''frame_path'', ''frame_size'', ''total_vectors'',
        ''method_distribution'', ''length_stats'', ''quality_stats''}
   \<and> frame_result ''still.png'' 100 100 [] ''vectors'' = Some (VVectors [])
   \<and> frame_result ''still.png'' 100 100 [] ''length_stats''
       = Some (VStats \<lparr>min_stat = 0, max_stat = 0, avg = 0\<rparr>)
   \<and> frame_result ''still.png'' 100 100 [] ''quality_stats''
       = Some (VStats \<lparr>min_stat = 0, max_stat = 0, avg = 0\<rparr>)"
proof -
  have a1: "imread quiet_world ''missing.png'' = None" by (rule quiet_imread(2))
  have a2: "imread quiet_world ''still.png'' \<noteq> None" by (simp add: quiet_imread(1))
  note a3 = quiet_extract
  have a4: "frame_result ''still.png'' 100 100 [] ''vectors'' = Some (VVectors [])" by simp
  note bad = load_error_has_only_vectors_and_error
      [of quiet_world "''missing.png''" "init False", THEN conjunct1, rule_format, OF a1]
  note good = load_error_has_only_vectors_and_error
      [of quiet_world "''still.png''" "init False", THEN conjunct2, rule_format, OF a2 a3]
  note stats = good [THEN conjunct2, rule_format, OF a4]
  show ?thesis
    by (intro conjI)
       (rule a1 a2 a3 a4 bad good [THEN conjunct1]
          stats [THEN conjunct2, THEN conjunct2, THEN conjunct1]
          stats [THEN conjunct2, THEN conjunct2, THEN conjunct2])+
qed

end
